theory Spec2Isabelle
  imports Main "HOL-Library.Sublist"
begin

section \<open>The token-rotating API client (src/services/apiClient.ts)\<close>

text \<open>
  A shallow embedding of \<^verbatim>\<open>getTokens\<close> and \<^verbatim>\<open>fetchWithTokenRotation\<close>.
  The function is asynchronous but sequential: every \<^verbatim>\<open>await\<close> is a plain call here.
  Its collaborators (session storage, the token lookup, the log sink and \<^verbatim>\<open>fetch\<close>) are
  parameters; every call made on one of them is appended to a list of events, so that
  the order and number of the calls can be stated. Console output is not modelled.
\<close>

subsection \<open>JavaScript values\<close>

text \<open>
  A parsed JSON value. A number is carried as its JavaScript string rendering
  (\<^verbatim>\<open>String(n)\<close>, for example 42, 0.5 or 1e+21), which is all the code does with it;
  both zeros render as 0. An object is its list of properties.
\<close>

datatype json =
    JNull
  | JBool bool
  | JNum string
  | JStr string
  | JArr "json list"
  | JObj "(string \<times> json) list"

text \<open>
  A thrown value. Everything the browser throws here (\<^verbatim>\<open>fetch\<close>, \<^verbatim>\<open>response.json()\<close>,
  a property read on null, \<^verbatim>\<open>new Error\<close>) is an instance of \<^verbatim>\<open>Error\<close>, carried as its
  name and message; for these \<^verbatim>\<open>error instanceof Error\<close> holds, so the source's
  alternatives \<^verbatim>\<open>String(error)\<close> and \<^verbatim>\<open>'Unknown error'\<close> are never taken.
\<close>

datatype js_error = JsError (err_name: string) (message: string)

text \<open>Reading a property of a value that is not null; \<open>None\<close> is \<^verbatim>\<open>undefined\<close>.
  Right for names that no prototype defines, such as error and message.\<close>

fun get_prop :: "json \<Rightarrow> string \<Rightarrow> json option" where
  "get_prop (JObj kvs) k = map_of kvs k"
| "get_prop _ k = None"

text \<open>\<^verbatim>\<open>v?.message\<close>: undefined when \<open>v\<close> is undefined or null.\<close>

fun opt_chain :: "json option \<Rightarrow> string \<Rightarrow> json option" where
  "opt_chain None k = None"
| "opt_chain (Some JNull) k = None"
| "opt_chain (Some v) k = get_prop v k"

fun truthy :: "json option \<Rightarrow> bool" where
  "truthy None = False"
| "truthy (Some JNull) = False"
| "truthy (Some (JBool b)) = b"
| "truthy (Some (JNum r)) = (r \<noteq> ''0'')"
| "truthy (Some (JStr s)) = (s \<noteq> [])"
| "truthy (Some (JArr xs)) = True"
| "truthy (Some (JObj kvs)) = True"

text \<open>\<^verbatim>\<open>String(v)\<close>; \<open>None\<close> when the conversion throws a TypeError. A parsed object
  has no callable property of its own, so the conversion finds the inherited
  \<^verbatim>\<open>toString\<close> and gives \<^verbatim>\<open>[object Object]\<close>, unless the object has a property named
  toString itself: then neither that nor \<^verbatim>\<open>valueOf\<close> yields a primitive and the
  conversion throws. An array joins its elements with commas, null elements being
  empty, and throws when an element does.\<close>

fun js_to_string :: "json \<Rightarrow> string option"
  and js_join :: "json list \<Rightarrow> string option"
  and js_element :: "json \<Rightarrow> string option" where
  "js_to_string JNull = Some ''null''"
| "js_to_string (JBool b) = Some (if b then ''true'' else ''false'')"
| "js_to_string (JNum r) = Some r"
| "js_to_string (JStr s) = Some s"
| "js_to_string (JArr xs) = js_join xs"
| "js_to_string (JObj kvs) =
     (if map_of kvs ''toString'' = None then Some ''[object Object]'' else None)"
| "js_join [] = Some []"
| "js_join [x] = js_element x"
| "js_join (x # y # ys) =
     (case js_element x of
        None \<Rightarrow> None
      | Some a \<Rightarrow> (case js_join (y # ys) of None \<Rightarrow> None | Some b \<Rightarrow> Some (a @ '','' @ b)))"
| "js_element v = (if v = JNull then Some [] else js_to_string v)"

text \<open>\<^verbatim>\<open>throw new Error(v)\<close>: the constructor converts \<open>v\<close> to a string, so what is thrown
  is the new Error or the TypeError of the conversion (its text is the engine's).\<close>

definition throw_new_Error :: "json \<Rightarrow> js_error" where
  "throw_new_Error v =
     (case js_to_string v of
        Some m \<Rightarrow> JsError ''Error'' m
      | None \<Rightarrow> JsError ''TypeError'' ''Cannot convert object to primitive value'')"

text \<open>The decimal rendering of a number in a template string.\<close>

fun show_nat :: "nat \<Rightarrow> string" where
  "show_nat n =
     (if n < 10 then [''0123456789'' ! n]
      else show_nat (n div 10) @ [''0123456789'' ! (n mod 10)])"

declare show_nat.simps [simp del]

text \<open>\<^verbatim>\<open>s.slice(-6)\<close>: the last six characters, the whole string when it is shorter.\<close>

definition slice_last6 :: "string \<Rightarrow> string" where
  "slice_last6 s = drop (length s - 6) s"

subsection \<open>Data\<close>

record credential =
  token :: string
  createdAt :: string

datatype log_status = Success | Error

text \<open>The argument of \<^verbatim>\<open>addLogEntry\<close>.\<close>

record log_entry =
  model :: string
  prompt :: string
  output_text :: string
  tokenCount :: nat
  status :: log_status
  error :: "string option"

text \<open>The request given to \<^verbatim>\<open>fetch\<close>: the endpoint, the method, the two headers and
  the payload that is serialised as the body. The payload is a JSON value, so
  \<^verbatim>\<open>JSON.stringify\<close> does not throw on it.\<close>

record request =
  url :: string
  http_method :: string
  contentType :: string
  authorization :: string
  body :: json

text \<open>What the code reads of a response: \<^verbatim>\<open>response.status\<close> and the outcome of
  \<^verbatim>\<open>response.json()\<close>, which throws when the body is not JSON.\<close>

record response =
  http_status :: nat
  json_body :: "js_error + json"

text \<open>\<^verbatim>\<open>response.ok\<close> is true for the statuses 200 to 299.\<close>

definition ok :: "response \<Rightarrow> bool" where
  "ok r = (200 \<le> http_status r \<and> http_status r \<le> 299)"

datatype fetch_outcome = Rejected js_error | Responded response

text \<open>What \<^verbatim>\<open>JSON.parse\<close> gives for the stored text, at the type \<^verbatim>\<open>getTokens\<close> declares:
  a value that is not an array, or an array of credentials.\<close>

datatype cached = NonArray | TokenArray "credential list"

record dispatch_result =
  data :: json
  successfulToken :: string

subsection \<open>Collaborators and the world\<close>

datatype event =
    GetItem
  | SetItem string
  | RefreshCall
  | Audit log_entry
  | Post request

text \<open>
  \<^item> \<open>JSON_parse\<close>: \<open>None\<close> when the text is not JSON (a SyntaxError is thrown);
  \<^item> \<open>JSON_stringify\<close>: the text stored for a list of credentials;
  \<^item> \<open>getVeoAuthTokens\<close>: the outcome of the lookup, a thrown error or the returned
    list, \<open>None\<close> for null;
  \<^item> \<open>addLogEntry\<close>: the log sink, with a state of its own; it returns the error it
    throws, if any, and its next state;
  \<^item> \<open>fetch\<close>: the outcome of the request, which may depend on how many requests this
    call has issued before.
\<close>

record 's collaborators =
  JSON_parse :: "string \<Rightarrow> cached option"
  JSON_stringify :: "credential list \<Rightarrow> string"
  getVeoAuthTokens :: "js_error + credential list option"
  addLogEntry :: "log_entry \<Rightarrow> 's \<Rightarrow> js_error option \<times> 's"
  fetch :: "nat \<Rightarrow> request \<Rightarrow> fetch_outcome"

text \<open>The session storage slot \<^verbatim>\<open>veoAuthTokens\<close> (\<open>None\<close> when it is not set), the state
  of the log sink, and the calls made so far.\<close>

record 's world =
  veoAuthTokens :: "string option"
  sinkState :: 's
  events :: "event list"

definition record_event :: "event \<Rightarrow> 's world \<Rightarrow> 's world" where
  "record_event e w = w\<lparr>events := events w @ [e]\<rparr>"

text \<open>A call of \<^verbatim>\<open>addLogEntry(entry)\<close>: the thrown error, if any, and the world after it.\<close>

definition log_call ::
  "'s collaborators \<Rightarrow> log_entry \<Rightarrow> 's world \<Rightarrow> js_error option \<times> 's world" where
  "log_call env entry w =
     (case addLogEntry env entry (sinkState w) of
        (thrown, s') \<Rightarrow> (thrown, record_event (Audit entry) (w\<lparr>sinkState := s'\<rparr>)))"

subsection \<open>getTokens (lines 25-38)\<close>

definition getTokens :: "'s collaborators \<Rightarrow> 's world \<Rightarrow> credential list \<times> 's world" where
  "getTokens env w =
     (let tokensJSON = veoAuthTokens w; w1 = record_event GetItem w in
      case tokensJSON of
        None \<Rightarrow> ([], w1)
      | Some s \<Rightarrow>
          if s = [] then ([], w1)
          else
            (case JSON_parse env s of
               None \<Rightarrow> ([], w1)
             | Some NonArray \<Rightarrow> ([], w1)
             | Some (TokenArray parsed) \<Rightarrow>
                 if length parsed > 0 then (parsed, w1) else ([], w1)))"

subsection \<open>The log entries of fetchWithTokenRotation\<close>

definition refresh_start_entry :: "string \<Rightarrow> log_entry" where
  "refresh_start_entry logContext =
     \<lparr>model = logContext, prompt = ''Auth Token Refresh'',
      output_text = ''No tokens found in session. Attempting to re-fetch from database.'',
      tokenCount = 0, status = Success, error = None\<rparr>"

definition refresh_ok_entry :: "string \<Rightarrow> nat \<Rightarrow> log_entry" where
  "refresh_ok_entry logContext n =
     \<lparr>model = logContext, prompt = ''Auth Token Refresh'',
      output_text = ''Successfully re-fetched '' @ show_nat n @ '' tokens.'',
      tokenCount = 0, status = Success, error = None\<rparr>"

definition refresh_failed_entry :: "string \<Rightarrow> string \<Rightarrow> log_entry" where
  "refresh_failed_entry logContext msg =
     \<lparr>model = logContext, prompt = ''Auth Token Refresh'',
      output_text = ''Failed to re-fetch tokens: '' @ msg,
      tokenCount = 0, status = Error, error = Some msg\<rparr>"

definition attempt_entry :: "string \<Rightarrow> nat \<Rightarrow> string \<Rightarrow> log_entry" where
  "attempt_entry logContext i currentAuthToken =
     \<lparr>model = logContext,
      prompt = ''Attempting '' @ logContext @ '' with token #'' @ show_nat (i + 1),
      output_text = ''Using token ending in ...'' @ slice_last6 currentAuthToken,
      tokenCount = 0, status = Success, error = None\<rparr>"

definition failed_entry :: "string \<Rightarrow> nat \<Rightarrow> string \<Rightarrow> log_entry" where
  "failed_entry logContext i errorMessage =
     \<lparr>model = logContext,
      prompt = ''Token #'' @ show_nat (i + 1) @ '' failed'',
      output_text = errorMessage,
      tokenCount = 0, status = Error, error = Some errorMessage\<rparr>"

definition retry_entry :: "string \<Rightarrow> log_entry" where
  "retry_entry logContext =
     \<lparr>model = logContext, prompt = ''Retrying with next token...'',
      output_text = ''Fallback mechanism initiated.'',
      tokenCount = 0, status = Success, error = None\<rparr>"

definition exhausted_entry :: "string \<Rightarrow> string \<Rightarrow> log_entry" where
  "exhausted_entry logContext msg =
     \<lparr>model = logContext, prompt = ''All available auth tokens failed.'',
      output_text = ''Final error: '' @ msg,
      tokenCount = 0, status = Error, error = Some msg\<rparr>"

subsection \<open>fetchWithTokenRotation: one attempt (the try block, lines 114-135)\<close>

definition make_request :: "string \<Rightarrow> json \<Rightarrow> string \<Rightarrow> request" where
  "make_request endpoint requestBody currentAuthToken =
     \<lparr>url = endpoint, http_method = ''POST'', contentType = ''application/json'',
      authorization = ''Bearer '' @ currentAuthToken, body = requestBody\<rparr>"

text \<open>\<^verbatim>\<open>a || b\<close> on values that may be undefined.\<close>

definition or_else :: "json option \<Rightarrow> json option \<Rightarrow> json option" where
  "or_else a b = (if truthy a then a else b)"

text \<open>Lines 129-130: \<^verbatim>\<open>data.error?.message || data.message || `API call failed (...)`\<close>,
  given to \<^verbatim>\<open>new Error\<close>, which is thrown. Reading \<^verbatim>\<open>data.error\<close> when the body is null
  throws a TypeError instead (its text is the engine's).\<close>

definition generic_message :: "nat \<Rightarrow> string" where
  "generic_message st = ''API call failed ('' @ show_nat st @ '')''"

definition failure_error :: "json \<Rightarrow> nat \<Rightarrow> js_error" where
  "failure_error d st =
     (if d = JNull
      then JsError ''TypeError'' ''Cannot read properties of null (reading 'error')''
      else
        (case or_else (opt_chain (get_prop d ''error'') ''message'') (get_prop d ''message'') of
           None \<Rightarrow> JsError ''Error'' (generic_message st)
         | Some v \<Rightarrow>
             if truthy (Some v) then throw_new_Error v
             else JsError ''Error'' (generic_message st)))"

text \<open>The outcome of the try block for the \<open>i\<close>-th request: the thrown error (from
  \<^verbatim>\<open>fetch\<close>, from \<^verbatim>\<open>response.json()\<close> or from line 130) or the parsed body.\<close>

definition attempt ::
  "'s collaborators \<Rightarrow> string \<Rightarrow> json \<Rightarrow> string \<Rightarrow> nat \<Rightarrow> js_error + json" where
  "attempt env endpoint requestBody currentAuthToken i =
     (case fetch env i (make_request endpoint requestBody currentAuthToken) of
        Rejected e \<Rightarrow> Inl e
      | Responded response \<Rightarrow>
          (case json_body response of
             Inl e \<Rightarrow> Inl e
           | Inr d \<Rightarrow>
               if \<not> ok response then Inl (failure_error d (http_status response))
               else Inr d))"

subsection \<open>fetchWithTokenRotation: the loop and what follows it (lines 100-171)\<close>

text \<open>\<open>lastError\<close> is \<open>None\<close> while it is null; line 166 reads its message, which
  throws a TypeError if it still is.\<close>

function rotate ::
  "'s collaborators \<Rightarrow> string \<Rightarrow> json \<Rightarrow> string \<Rightarrow> credential list \<Rightarrow> nat \<Rightarrow>
   js_error option \<Rightarrow> 's world \<Rightarrow> (js_error + dispatch_result) \<times> 's world" where
  "rotate env endpoint requestBody logContext tokens i lastError w =
     (if i < length tokens then
        (let currentAuthToken = token (tokens ! i) in
         case log_call env (attempt_entry logContext i currentAuthToken) w of
           (Some thrown, w1) \<Rightarrow> (Inl thrown, w1)
         | (None, w1) \<Rightarrow>
             (let w2 = record_event
                         (Post (make_request endpoint requestBody currentAuthToken)) w1 in
              case attempt env endpoint requestBody currentAuthToken i of
                Inr d \<Rightarrow> (Inr \<lparr>data = d, successfulToken = currentAuthToken\<rparr>, w2)
              | Inl err \<Rightarrow>
                  (case log_call env (failed_entry logContext i (message err)) w2 of
                     (Some thrown, w3) \<Rightarrow> (Inl thrown, w3)
                   | (None, w3) \<Rightarrow>
                       if i < length tokens - 1 then
                         (case log_call env (retry_entry logContext) w3 of
                            (Some thrown, w4) \<Rightarrow> (Inl thrown, w4)
                          | (None, w4) \<Rightarrow>
                              rotate env endpoint requestBody logContext tokens (i + 1)
                                (Some err) w4)
                       else
                         rotate env endpoint requestBody logContext tokens (i + 1)
                           (Some err) w3)))
      else
        (case lastError of
           None \<Rightarrow>
             (Inl (JsError ''TypeError''
                     ''Cannot read properties of null (reading 'message')''), w)
         | Some err \<Rightarrow>
             (case log_call env (exhausted_entry logContext (message err)) w of
                (Some thrown, w1) \<Rightarrow> (Inl thrown, w1)
              | (None, w1) \<Rightarrow> (Inl err, w1))))"
  by pat_completeness auto
termination
  by (relation "measure (\<lambda>(env, endpoint, requestBody, logContext, tokens, i, lastError, w).
        length tokens - i)") auto

declare rotate.simps [simp del]

subsection \<open>fetchWithTokenRotation: the tokens to try (lines 56-93)\<close>

text \<open>\<^verbatim>\<open>specificToken\<close> is optional; as a condition it is true when it is given and not
  the empty string.\<close>

fun given :: "string option \<Rightarrow> bool" where
  "given None = False"
| "given (Some t) = (t \<noteq> [])"

text \<open>Lines 60-92, entered with no tokens: the lookup and its log entries. The entry of
  line 74 is written inside the try block, so an error thrown by the sink there is
  caught at line 82 like an error of the lookup, after \<^verbatim>\<open>tokens\<close> has been assigned.
  \<^verbatim>\<open>sessionStorage.setItem\<close> is taken to succeed.\<close>

definition refetch ::
  "'s collaborators \<Rightarrow> string \<Rightarrow> credential list \<Rightarrow> 's world \<Rightarrow>
   (js_error + credential list) \<times> 's world" where
  "refetch env logContext tokens w =
     (case log_call env (refresh_start_entry logContext) w of
        (Some thrown, w1) \<Rightarrow> (Inl thrown, w1)
      | (None, w1) \<Rightarrow>
          (let w2 = record_event RefreshCall w1 in
           case getVeoAuthTokens env of
             Inl e \<Rightarrow>
               (case log_call env (refresh_failed_entry logContext (message e)) w2 of
                  (Some thrown, w3) \<Rightarrow> (Inl thrown, w3)
                | (None, w3) \<Rightarrow> (Inr tokens, w3))
           | Inr None \<Rightarrow> (Inr tokens, w2)
           | Inr (Some newTokens) \<Rightarrow>
               if length newTokens > 0 then
                 (let w3 = record_event (SetItem (JSON_stringify env newTokens))
                             (w2\<lparr>veoAuthTokens := Some (JSON_stringify env newTokens)\<rparr>) in
                  case log_call env (refresh_ok_entry logContext (length newTokens)) w3 of
                    (None, w4) \<Rightarrow> (Inr newTokens, w4)
                  | (Some e, w4) \<Rightarrow>
                      (case log_call env (refresh_failed_entry logContext (message e)) w4 of
                         (Some thrown, w5) \<Rightarrow> (Inl thrown, w5)
                       | (None, w5) \<Rightarrow> (Inr newTokens, w5)))
               else (Inr tokens, w2)))"

definition resolve_tokens ::
  "'s collaborators \<Rightarrow> string \<Rightarrow> string option \<Rightarrow> 's world \<Rightarrow>
   (js_error + credential list) \<times> 's world" where
  "resolve_tokens env logContext specificToken w =
     (case (case specificToken of
              None \<Rightarrow> getTokens env w
            | Some t \<Rightarrow>
                if t \<noteq> [] then ([\<lparr>token = t, createdAt = ''N/A''\<rparr>], w)
                else getTokens env w) of
        (tokens, w1) \<Rightarrow>
          if length tokens = 0 \<and> \<not> given specificToken
          then refetch env logContext tokens w1
          else (Inr tokens, w1))"

subsection \<open>fetchWithTokenRotation\<close>

definition no_token_error :: "string \<Rightarrow> js_error" where
  "no_token_error logContext =
     JsError ''Error''
       (''Auth Token is required for '' @ logContext @
        ''. Please set it via the Key icon in the header.'')"

definition fetchWithTokenRotation ::
  "'s collaborators \<Rightarrow> string \<Rightarrow> json \<Rightarrow> string \<Rightarrow> string option \<Rightarrow> 's world \<Rightarrow>
   (js_error + dispatch_result) \<times> 's world" where
  "fetchWithTokenRotation env endpoint requestBody logContext specificToken w =
     (case resolve_tokens env logContext specificToken w of
        (Inl thrown, w1) \<Rightarrow> (Inl thrown, w1)
      | (Inr tokens, w1) \<Rightarrow>
          if length tokens = 0 then (Inl (no_token_error logContext), w1)
          else rotate env endpoint requestBody logContext tokens 0 None w1)"

subsection \<open>Reading a run\<close>

text \<open>A sink that returns normally on every entry, in every state.\<close>

definition returns_normally :: "(log_entry \<Rightarrow> 's \<Rightarrow> js_error option \<times> 's) \<Rightarrow> bool" where
  "returns_normally sink = (\<forall>entry s. fst (sink entry s) = None)"

text \<open>The requests sent and the entries given to the sink, in order.\<close>

fun posts :: "event list \<Rightarrow> request list" where
  "posts [] = []"
| "posts (Post r # es) = r # posts es"
| "posts (e # es) = posts es"

fun audits :: "event list \<Rightarrow> log_entry list" where
  "audits [] = []"
| "audits (Audit a # es) = a # audits es"
| "audits (e # es) = audits es"

text \<open>The world after a call of the sink, the \<open>i\<close>-th attempt and request of a list of
  tokens, and the calls one pass of the loop makes: the entry of line 106, the request,
  and after a failure the entries of lines 140 and 151.\<close>

definition after_log :: "'s collaborators \<Rightarrow> log_entry \<Rightarrow> 's world \<Rightarrow> 's world" where
  "after_log env entry w = snd (log_call env entry w)"

definition attempt_at ::
  "'s collaborators \<Rightarrow> string \<Rightarrow> json \<Rightarrow> credential list \<Rightarrow> nat \<Rightarrow> js_error + json" where
  "attempt_at env endpoint requestBody tokens i =
     attempt env endpoint requestBody (token (tokens ! i)) i"

definition request_at :: "string \<Rightarrow> json \<Rightarrow> credential list \<Rightarrow> nat \<Rightarrow> request" where
  "request_at endpoint requestBody tokens i = make_request endpoint requestBody (token (tokens ! i))"

definition pass_events ::
  "'s collaborators \<Rightarrow> string \<Rightarrow> json \<Rightarrow> string \<Rightarrow> credential list \<Rightarrow> nat \<Rightarrow> event list" where
  "pass_events env endpoint requestBody logContext tokens i =
     Audit (attempt_entry logContext i (token (tokens ! i))) #
     Post (request_at endpoint requestBody tokens i) #
     (case attempt_at env endpoint requestBody tokens i of
        Inr d \<Rightarrow> []
      | Inl err \<Rightarrow>
          Audit (failed_entry logContext i (message err)) #
          (if i < length tokens - 1 then [Audit (retry_entry logContext)] else []))"

definition after_failure ::
  "'s collaborators \<Rightarrow> string \<Rightarrow> json \<Rightarrow> string \<Rightarrow> credential list \<Rightarrow> nat \<Rightarrow> js_error \<Rightarrow> 's world \<Rightarrow> 's world" where
  "after_failure env endpoint requestBody logContext tokens i err w =
     (let w3 = after_log env (failed_entry logContext i (message err))
                 (record_event (Post (request_at endpoint requestBody tokens i))
                    (after_log env (attempt_entry logContext i (token (tokens ! i))) w))
      in if i < length tokens - 1 then after_log env (retry_entry logContext) w3 else w3)"

text \<open>The entries of a pass that fails with the error \<open>errs j\<close>.\<close>

definition failed_pass_entries ::
  "string \<Rightarrow> credential list \<Rightarrow> (nat \<Rightarrow> js_error) \<Rightarrow> nat \<Rightarrow> log_entry list" where
  "failed_pass_entries logContext tokens errs j =
     [attempt_entry logContext j (token (tokens ! j)),
      failed_entry logContext j (message (errs j))] @
     (if j < length tokens - 1 then [retry_entry logContext] else [])"

text \<open>A stored text from which \<^verbatim>\<open>getTokens\<close> gets nothing: missing, empty, malformed,
  not an array, or an empty array. A lookup that gives nothing: it throws, or returns
  null or an empty list.\<close>

definition cache_unusable :: "'s collaborators \<Rightarrow> 's world \<Rightarrow> bool" where
  "cache_unusable env w =
     (case veoAuthTokens w of
        None \<Rightarrow> True
      | Some s \<Rightarrow>
          s = [] \<or>
          (case JSON_parse env s of
             None \<Rightarrow> True
           | Some NonArray \<Rightarrow> True
           | Some (TokenArray ts) \<Rightarrow> ts = []))"

fun lookup_yields_nothing :: "js_error + credential list option \<Rightarrow> bool" where
  "lookup_yields_nothing (Inl e) = True"
| "lookup_yields_nothing (Inr None) = True"
| "lookup_yields_nothing (Inr (Some ts)) = (ts = [])"

text \<open>The calls of lines 60-92 when the sink returns normally, and the entries among them.\<close>

definition lookup_events :: "'s collaborators \<Rightarrow> string \<Rightarrow> event list" where
  "lookup_events env logContext =
     Audit (refresh_start_entry logContext) # RefreshCall #
     (case getVeoAuthTokens env of
        Inl e \<Rightarrow> [Audit (refresh_failed_entry logContext (message e))]
      | Inr None \<Rightarrow> []
      | Inr (Some newTokens) \<Rightarrow>
          if newTokens \<noteq> []
          then [SetItem (JSON_stringify env newTokens),
                Audit (refresh_ok_entry logContext (length newTokens))]
          else [])"

definition lookup_entries :: "'s collaborators \<Rightarrow> string \<Rightarrow> log_entry list" where
  "lookup_entries env logContext =
     refresh_start_entry logContext #
     (case getVeoAuthTokens env of
        Inl e \<Rightarrow> [refresh_failed_entry logContext (message e)]
      | Inr None \<Rightarrow> []
      | Inr (Some newTokens) \<Rightarrow>
          if newTokens \<noteq> [] then [refresh_ok_entry logContext (length newTokens)] else [])"

subsection \<open>Comparing two runs\<close>

text \<open>Two sets of collaborators that differ in the sink only, the sinks throwing the same
  errors from states related by \<open>R\<close>; two worlds with related sink states and the same
  events and, when \<open>strict\<close>, the same stored text.\<close>

definition lockstep ::
  "('s \<Rightarrow> 't \<Rightarrow> bool) \<Rightarrow> 's collaborators \<Rightarrow> 't collaborators \<Rightarrow> bool" where
  "lockstep R env env' =
     (JSON_parse env = JSON_parse env' \<and> JSON_stringify env = JSON_stringify env' \<and>
      getVeoAuthTokens env = getVeoAuthTokens env' \<and> fetch env = fetch env' \<and>
      (\<forall>entry s s'. R s s' \<longrightarrow>
         fst (addLogEntry env entry s) = fst (addLogEntry env' entry s') \<and>
         R (snd (addLogEntry env entry s)) (snd (addLogEntry env' entry s'))))"

definition alike :: "('s \<Rightarrow> 't \<Rightarrow> bool) \<Rightarrow> bool \<Rightarrow> 's world \<Rightarrow> 't world \<Rightarrow> bool" where
  "alike R strict w w' =
     (R (sinkState w) (sinkState w') \<and> events w = events w' \<and>
      (strict \<longrightarrow> veoAuthTokens w = veoAuthTokens w'))"

text \<open>The sink that does nothing; the collaborators with that sink in place of theirs, and
  the world without the state of the sink.\<close>

definition noop_sink :: "log_entry \<Rightarrow> unit \<Rightarrow> js_error option \<times> unit" where
  "noop_sink entry s = (None, s)"

definition silenced :: "'s collaborators \<Rightarrow> unit collaborators" where
  "silenced env =
     \<lparr>JSON_parse = JSON_parse env, JSON_stringify = JSON_stringify env,
      getVeoAuthTokens = getVeoAuthTokens env, addLogEntry = noop_sink, fetch = fetch env\<rparr>"

definition forget :: "'s world \<Rightarrow> unit world" where
  "forget w = \<lparr>veoAuthTokens = veoAuthTokens w, sinkState = (), events = events w\<rparr>"

subsection \<open>The failure message as the specification words it\<close>

text \<open>The specification takes the nested error message when it is present, else the
  top-level message when it is present, else the generic message; present is read as:
  the property exists. This is the value it says the message equals.\<close>

definition claimed_message :: "json \<Rightarrow> nat \<Rightarrow> json" where
  "claimed_message d st =
     (case opt_chain (get_prop d ''error'') ''message'' of
        Some v \<Rightarrow> v
      | None \<Rightarrow>
          (case get_prop d ''message'' of
             Some v \<Rightarrow> v
           | None \<Rightarrow> JStr (generic_message st)))"

subsection \<open>Example environments\<close>

text \<open>The parser of the examples reads three texts; the lookup returns the tokens B and
  C; the server accepts C, is unreachable with B and answers 500 with a quota message to
  any other token. The variants change the lookup, the sink or the server.\<close>

definition demo_parse :: "string \<Rightarrow> cached option" where
  "demo_parse s =
     (if s = ''A'' then Some (TokenArray [\<lparr>token = ''A'', createdAt = ''N/A''\<rparr>])
      else if s = ''[]'' then Some (TokenArray [])
      else if s = ''{}'' then Some NonArray
      else None)"

definition demo_fetch :: "nat \<Rightarrow> request \<Rightarrow> fetch_outcome" where
  "demo_fetch i r =
     (if authorization r = ''Bearer C''
      then Responded \<lparr>http_status = 200, json_body = Inr (JObj [(''ok'', JBool True)])\<rparr>
      else if authorization r = ''Bearer B''
      then Rejected (JsError ''TypeError'' ''Failed to fetch'')
      else Responded \<lparr>http_status = 500,
             json_body = Inr (JObj [(''error'', JObj [(''message'', JStr ''quota'')])])\<rparr>)"

definition demo_env :: "unit collaborators" where
  "demo_env =
     \<lparr>JSON_parse = demo_parse,
      JSON_stringify = (\<lambda>ts. ''stored''),
      getVeoAuthTokens = Inr (Some [\<lparr>token = ''B'', createdAt = ''N/A''\<rparr>, \<lparr>token = ''C'', createdAt = ''N/A''\<rparr>]),
      addLogEntry = noop_sink,
      fetch = demo_fetch\<rparr>"

definition demo_world :: "string option \<Rightarrow> unit world" where
  "demo_world stored = \<lparr>veoAuthTokens = stored, sinkState = (), events = []\<rparr>"

definition failing_env :: "unit collaborators" where
  "failing_env =
     demo_env\<lparr>getVeoAuthTokens :=
       Inr (Some [\<lparr>token = ''B'', createdAt = ''N/A''\<rparr>, \<lparr>token = ''D'', createdAt = ''N/A''\<rparr>])\<rparr>"

definition empty_env :: "unit collaborators" where
  "empty_env = demo_env\<lparr>getVeoAuthTokens := Inr (Some [])\<rparr>"

definition two_errors :: "nat \<Rightarrow> js_error" where
  "two_errors j =
     (if j = 0 then JsError ''TypeError'' ''Failed to fetch'' else JsError ''Error'' ''quota'')"

text \<open>A sink that throws on every call, and a sink that keeps the entries.\<close>

definition throwing_sink :: "log_entry \<Rightarrow> unit \<Rightarrow> js_error option \<times> unit" where
  "throwing_sink entry s = (Some (JsError ''Error'' ''sink down''), s)"

definition broken_sink_env :: "unit collaborators" where
  "broken_sink_env = demo_env\<lparr>addLogEntry := throwing_sink\<rparr>"

definition recording_sink :: "log_entry \<Rightarrow> log_entry list \<Rightarrow> js_error option \<times> log_entry list" where
  "recording_sink entry s = (None, s @ [entry])"

definition recording_env :: "log_entry list collaborators" where
  "recording_env =
     \<lparr>JSON_parse = demo_parse, JSON_stringify = (\<lambda>ts. ''stored''),
      getVeoAuthTokens = getVeoAuthTokens demo_env, addLogEntry = recording_sink,
      fetch = demo_fetch\<rparr>"

text \<open>A server that answers 500 with an empty nested message, one whose nested message
  is an object with a property named toString, and a token of realistic length.\<close>

definition blank_body :: json where
  "blank_body = JObj [(''error'', JObj [(''message'', JStr [])])]"

definition blank_env :: "unit collaborators" where
  "blank_env =
     demo_env\<lparr>fetch := (\<lambda>i r. Responded \<lparr>http_status = 500, json_body = Inr blank_body\<rparr>)\<rparr>"

definition unprintable_body :: json where
  "unprintable_body =
     JObj [(''error'', JObj [(''message'', JObj [(''toString'', JNum ''1'')])])]"

definition unprintable_env :: "unit collaborators" where
  "unprintable_env =
     demo_env\<lparr>fetch :=
       (\<lambda>i r. Responded \<lparr>http_status = 500, json_body = Inr unprintable_body\<rparr>)\<rparr>"

definition long_token :: string where
  "long_token = ''veo-session-token-9f3kQz''"

section \<open>Properties\<close>

subsection \<open>The sink and the events\<close>

lemma log_call_quiet:
  "returns_normally (addLogEntry env) \<Longrightarrow> log_call env entry w = (None, after_log env entry w)"
  by (simp add: log_call_def after_log_def returns_normally_def split: prod.splits)
    (metis fst_conv)

lemma events_after_log [simp]:
  "events (after_log env entry w) = events w @ [Audit entry]"
  by (simp add: after_log_def log_call_def record_event_def split: prod.splits)

lemma store_after_log [simp]:
  "veoAuthTokens (after_log env entry w) = veoAuthTokens w"
  by (simp add: after_log_def log_call_def record_event_def split: prod.splits)

lemma events_record_event [simp]: "events (record_event e w) = events w @ [e]"
  by (simp add: record_event_def)

lemma store_record_event [simp]: "veoAuthTokens (record_event e w) = veoAuthTokens w"
  by (simp add: record_event_def)

lemma rotate_success:
  assumes "returns_normally (addLogEntry env)" "i < length tokens"
    "attempt_at env endpoint requestBody tokens i = Inr d"
  shows "rotate env endpoint requestBody logContext tokens i lastError w =
     (Inr \<lparr>data = d, successfulToken = token (tokens ! i)\<rparr>,
      record_event (Post (request_at endpoint requestBody tokens i))
        (after_log env (attempt_entry logContext i (token (tokens ! i))) w))"
  using assms
  by (subst rotate.simps) (simp add: log_call_quiet attempt_at_def request_at_def Let_def)

lemma rotate_failure:
  assumes "returns_normally (addLogEntry env)" "i < length tokens"
    "attempt_at env endpoint requestBody tokens i = Inl err"
  shows "rotate env endpoint requestBody logContext tokens i lastError w =
     rotate env endpoint requestBody logContext tokens (Suc i) (Some err)
       (after_failure env endpoint requestBody logContext tokens i err w)"
  using assms
  by (subst rotate.simps) (simp add: log_call_quiet attempt_at_def request_at_def after_failure_def Let_def)

lemma rotate_exhausted:
  assumes "returns_normally (addLogEntry env)" "\<not> i < length tokens"
  shows "rotate env endpoint requestBody logContext tokens i (Some err) w =
     (Inl err, after_log env (exhausted_entry logContext (message err)) w)"
  using assms
  by (subst rotate.simps) (simp add: log_call_quiet)

lemma events_after_failure:
  "attempt_at env endpoint requestBody tokens i = Inl err \<Longrightarrow>
   events (after_failure env endpoint requestBody logContext tokens i err w) =
     events w @ pass_events env endpoint requestBody logContext tokens i"
  by (simp add: after_failure_def pass_events_def Let_def)

lemma store_after_failure [simp]:
  "veoAuthTokens (after_failure env endpoint requestBody logContext tokens i err w) = veoAuthTokens w"
  by (simp add: after_failure_def Let_def)

lemma posts_append [simp]: "posts (xs @ ys) = posts xs @ posts ys"
  by (induction xs rule: posts.induct) simp_all

lemma audits_append [simp]: "audits (xs @ ys) = audits xs @ audits ys"
  by (induction xs rule: audits.induct) simp_all

lemma upt_front: "i < n \<Longrightarrow> [i..<n] = i # [Suc i..<n]"
  by (simp add: upt_conv_Cons)

lemma rotate_all_fail:
  assumes quiet: "returns_normally (addLogEntry env)"
  shows "i < length tokens \<Longrightarrow>
     \<forall>j. i \<le> j \<and> j < length tokens \<longrightarrow> isl (attempt_at env endpoint requestBody tokens j) \<Longrightarrow>
     attempt_at env endpoint requestBody tokens (length tokens - 1) = Inl final \<Longrightarrow>
     fst (rotate env endpoint requestBody logContext tokens i lastError w) = Inl final \<and>
     events (snd (rotate env endpoint requestBody logContext tokens i lastError w)) =
       events w @ concat (map (pass_events env endpoint requestBody logContext tokens) [i..<length tokens])
         @ [Audit (exhausted_entry logContext (message final))] \<and>
     veoAuthTokens (snd (rotate env endpoint requestBody logContext tokens i lastError w)) = veoAuthTokens w"
proof (induction "length tokens - i" arbitrary: i lastError w)
  case 0
  then show ?case by simp
next
  case (Suc d)
  from Suc.prems obtain err where err: "attempt_at env endpoint requestBody tokens i = Inl err"
    by (metis isl_def le_refl)
  note step = rotate_failure [OF quiet Suc.prems(1) err]
  show ?case
  proof (cases "Suc i < length tokens")
    case True
    have d: "d = length tokens - Suc i" using Suc.hyps(2) by simp
    have rest: "\<forall>j. Suc i \<le> j \<and> j < length tokens \<longrightarrow> isl (attempt_at env endpoint requestBody tokens j)"
      using Suc.prems(2) by simp
    from Suc.hyps(1) [OF d True rest Suc.prems(3)] show ?thesis
      by (simp add: step events_after_failure [OF err] upt_front [OF Suc.prems(1)])
  next
    case False
    with Suc.prems(1) have last: "i = length tokens - 1" by simp
    with err Suc.prems(3) have fin: "final = err" by simp
    have upt: "[i..<length tokens] = [i]"
      using False Suc.prems(1) by (simp add: upt_front)
    show ?thesis
      unfolding step rotate_exhausted [OF quiet False] fin upt
      by (simp add: events_after_failure [OF err])
  qed
qed

lemma rotate_first_success:
  assumes quiet: "returns_normally (addLogEntry env)"
  shows "i \<le> k \<Longrightarrow> k < length tokens \<Longrightarrow>
     \<forall>j. i \<le> j \<and> j < k \<longrightarrow> isl (attempt_at env endpoint requestBody tokens j) \<Longrightarrow>
     attempt_at env endpoint requestBody tokens k = Inr d \<Longrightarrow>
     fst (rotate env endpoint requestBody logContext tokens i lastError w) =
       Inr \<lparr>data = d, successfulToken = token (tokens ! k)\<rparr> \<and>
     events (snd (rotate env endpoint requestBody logContext tokens i lastError w)) =
       events w @ concat (map (pass_events env endpoint requestBody logContext tokens) [i..<Suc k]) \<and>
     veoAuthTokens (snd (rotate env endpoint requestBody logContext tokens i lastError w)) = veoAuthTokens w"
proof (induction "k - i" arbitrary: i lastError w)
  case 0
  then have ik: "i = k" by simp
  with 0 show ?case
    by (simp add: rotate_success [OF quiet] pass_events_def)
next
  case (Suc n)
  then have lt: "i < k" and il: "i < length tokens" by simp_all
  with Suc.prems obtain err where err: "attempt_at env endpoint requestBody tokens i = Inl err"
    by (metis isl_def le_refl)
  have n: "n = k - Suc i" using Suc.hyps(2) by simp
  have rest: "\<forall>j. Suc i \<le> j \<and> j < k \<longrightarrow> isl (attempt_at env endpoint requestBody tokens j)"
    using Suc.prems(3) by simp
  from lt have le: "Suc i \<le> k" by simp
  from lt have front: "[i..<Suc k] = i # [Suc i..<Suc k]" by (simp add: upt_conv_Cons)
  from Suc.hyps(1) [OF n le Suc.prems(2) rest Suc.prems(4)] show ?case
    unfolding rotate_failure [OF quiet il err] front
    by (simp add: events_after_failure [OF err] del: upt_Suc)
qed

lemma noop_returns: "returns_normally noop_sink"
  by (simp add: returns_normally_def noop_sink_def)

lemma posts_pass_events [simp]:
  "posts (pass_events env endpoint requestBody logContext tokens i) =
     [request_at endpoint requestBody tokens i]"
  by (simp add: pass_events_def split: sum.splits)

lemma posts_concat_pass:
  "posts (concat (map (pass_events env endpoint requestBody logContext tokens) xs)) =
     map (request_at endpoint requestBody tokens) xs"
  by (induction xs) simp_all

lemma posts_log_call [simp]: "posts (events (snd (log_call env entry w))) = posts (events w)"
  by (simp add: log_call_def split: prod.splits)

lemma posts_getTokens [simp]: "posts (events (snd (getTokens env w))) = posts (events w)"
  by (simp add: getTokens_def Let_def split: option.splits cached.splits)

lemma posts_refetch [simp]:
  "posts (events (snd (refetch env logContext tokens w))) = posts (events w)"
proof -
  have step: "\<And>entry w. posts (events (snd (log_call env entry w))) = posts (events w)"
    by simp
  have pair: "\<And>entry w r w'. log_call env entry w = (r, w') \<Longrightarrow> posts (events w') = posts (events w)"
    using step by (metis snd_conv)
  show ?thesis
    by (auto simp: refetch_def Let_def split: prod.splits option.splits sum.splits dest!: pair)
qed

lemma posts_resolve_tokens:
  "posts (events (snd (resolve_tokens env logContext specificToken w))) = posts (events w)"
proof (cases "getTokens env w")
  case (Pair ts w1)
  then have "posts (events w1) = posts (events w)"
    using posts_getTokens [of env w] by simp
  with Pair show ?thesis
    by (simp add: resolve_tokens_def split: option.splits)
qed

lemma request_at_make: "request_at endpoint requestBody tokens i = make_request endpoint requestBody (token (tokens ! i))"
  by (simp add: request_at_def)

lemma getTokens_unusable:
  "cache_unusable env w \<Longrightarrow> getTokens env w = ([], record_event GetItem w)"
  by (auto simp: cache_unusable_def getTokens_def Let_def split: option.splits cached.splits)

lemma resolve_pinned:
  "t \<noteq> [] \<Longrightarrow>
   resolve_tokens env logContext (Some t) w = (Inr [\<lparr>token = t, createdAt = ''N/A''\<rparr>], w)"
  by (simp add: resolve_tokens_def)

lemma resolve_unpinned:
  "\<not> given specificToken \<Longrightarrow>
   resolve_tokens env logContext specificToken w =
     (case getTokens env w of
        (tokens, w1) \<Rightarrow>
          if tokens = [] then refetch env logContext tokens w1 else (Inr tokens, w1))"
  by (cases specificToken) (simp_all add: resolve_tokens_def split: prod.splits)

lemma refetch_nothing:
  assumes "returns_normally (addLogEntry env)" "lookup_yields_nothing (getVeoAuthTokens env)"
  shows "fst (refetch env logContext [] w) = Inr []"
  using assms
  by (cases "getVeoAuthTokens env" rule: lookup_yields_nothing.cases)
     (simp_all add: refetch_def log_call_quiet Let_def)

lemmas demo_defs = demo_env_def demo_parse_def demo_fetch_def demo_world_def noop_sink_def
  failing_env_def empty_env_def

lemmas run_defs = resolve_tokens_def getTokens_def refetch_def log_call_def record_event_def
  attempt_at_def attempt_def make_request_def request_at_def ok_def

lemma alike_record_event:
  "alike R strict w w' \<Longrightarrow> alike R strict (record_event e w) (record_event e w')"
  by (simp add: alike_def record_event_def)

lemma alike_store:
  "alike R strict w w' \<Longrightarrow>
   alike R strict (w\<lparr>veoAuthTokens := v\<rparr>) (w'\<lparr>veoAuthTokens := v\<rparr>)"
  by (simp add: alike_def)

lemma alike_log_call:
  assumes "lockstep R env env'" "alike R strict w w'"
  shows "rel_prod (=) (alike R strict) (log_call env entry w) (log_call env' entry w')"
  using assms
  by (auto simp: lockstep_def alike_def log_call_def record_event_def split: prod.splits)
    (metis fst_conv snd_conv)+

lemma attempt_lockstep:
  "lockstep R env env' \<Longrightarrow>
   attempt env endpoint requestBody t i = attempt env' endpoint requestBody t i"
  by (simp add: lockstep_def attempt_def)

lemma alike_rotate:
  assumes lock: "lockstep R env env'"
  shows "alike R strict w w' \<Longrightarrow>
     rel_prod (=) (alike R strict)
       (rotate env endpoint requestBody logContext tokens i lastError w)
       (rotate env' endpoint requestBody logContext tokens i lastError w')"
proof (induction "length tokens - i" arbitrary: i lastError w w')
  case 0
  then have stop: "\<not> i < length tokens" by simp
  show ?case
  proof (cases lastError)
    case None
    with stop 0 show ?thesis
      by (simp add: rotate.simps [of _ _ _ _ tokens i])
  next
    case (Some err)
    from alike_log_call [OF lock 0(2), of "exhausted_entry logContext (message err)"]
    show ?thesis
      using stop Some
      by (auto simp: rotate.simps [of _ _ _ _ tokens i] split: prod.splits option.splits)
  qed
next
  case (Suc n)
  then have run: "i < length tokens" and n: "n = length tokens - Suc i" by simp_all
  let ?t = "token (tokens ! i)"
  obtain r1 w1 where a1: "log_call env (attempt_entry logContext i ?t) w = (r1, w1)"
    by (cases "log_call env (attempt_entry logContext i ?t) w")
  obtain r1' w1' where a1': "log_call env' (attempt_entry logContext i ?t) w' = (r1', w1')"
    by (cases "log_call env' (attempt_entry logContext i ?t) w'")
  from alike_log_call [OF lock Suc.prems, of "attempt_entry logContext i ?t"] a1 a1'
  have r1: "r1' = r1" and w1: "alike R strict w1 w1'" by simp_all
  show ?case
  proof (cases r1)
    case (Some thrown)
    with a1 a1' r1 w1 run show ?thesis
      by (simp add: rotate.simps [of _ _ _ _ tokens i] Let_def)
  next
    case None
    let ?w2 = "record_event (Post (make_request endpoint requestBody ?t)) w1"
    let ?w2' = "record_event (Post (make_request endpoint requestBody ?t)) w1'"
    have w2: "alike R strict ?w2 ?w2'" by (rule alike_record_event [OF w1])
    have same: "attempt env' endpoint requestBody ?t i = attempt env endpoint requestBody ?t i"
      by (rule attempt_lockstep [OF lock, symmetric])
    show ?thesis
    proof (cases "attempt env endpoint requestBody ?t i")
      case (Inr d)
      with a1 a1' r1 None w2 run same show ?thesis
        by (simp add: rotate.simps [of _ _ _ _ tokens i] Let_def)
    next
      case (Inl err)
      obtain r3 w3 where a3: "log_call env (failed_entry logContext i (message err)) ?w2 = (r3, w3)"
        by (cases "log_call env (failed_entry logContext i (message err)) ?w2")
      obtain r3' w3' where a3': "log_call env' (failed_entry logContext i (message err)) ?w2' = (r3', w3')"
        by (cases "log_call env' (failed_entry logContext i (message err)) ?w2'")
      from alike_log_call [OF lock w2, of "failed_entry logContext i (message err)"] a3 a3'
      have r3: "r3' = r3" and w3: "alike R strict w3 w3'" by simp_all
      obtain r4 w4 where a4: "log_call env (retry_entry logContext) w3 = (r4, w4)"
        by (cases "log_call env (retry_entry logContext) w3")
      obtain r4' w4' where a4': "log_call env' (retry_entry logContext) w3' = (r4', w4')"
        by (cases "log_call env' (retry_entry logContext) w3'")
      from alike_log_call [OF lock w3, of "retry_entry logContext"] a4 a4'
      have r4: "r4' = r4" and w4: "alike R strict w4 w4'" by simp_all
      note ih3 = Suc.hyps(1) [OF n w3, of "Some err"]
      note ih4 = Suc.hyps(1) [OF n w4, of "Some err"]
      show ?thesis
        using a1 a1' r1 None same Inl a3 a3' r3 w3 a4 a4' r4 w4 ih3 ih4 run
        by (simp add: rotate.simps [of _ _ _ _ tokens i] Let_def split: option.splits)
    qed
  qed
qed

lemma events_refetch_quiet:
  assumes "returns_normally (addLogEntry env)"
  shows "events (snd (refetch env logContext tokens w)) = events w @ lookup_events env logContext"
  using assms
  by (simp add: refetch_def lookup_events_def log_call_quiet Let_def
      split: sum.splits option.splits)

lemma alike_refetch:
  assumes lock: "lockstep R env env'" and w: "alike R strict w w'"
  shows "rel_prod (=) (alike R strict)
       (refetch env logContext tokens w) (refetch env' logContext tokens w')"
proof -
  have same: "getVeoAuthTokens env' = getVeoAuthTokens env"
    "JSON_stringify env' = JSON_stringify env"
    using lock by (simp_all add: lockstep_def)
  obtain r1 w1 where a1: "log_call env (refresh_start_entry logContext) w = (r1, w1)"
    by (cases "log_call env (refresh_start_entry logContext) w")
  obtain r1' w1' where a1': "log_call env' (refresh_start_entry logContext) w' = (r1', w1')"
    by (cases "log_call env' (refresh_start_entry logContext) w'")
  from alike_log_call [OF lock w, of "refresh_start_entry logContext"] a1 a1'
  have r1: "r1' = r1" and w1: "alike R strict w1 w1'" by simp_all
  let ?w2 = "record_event RefreshCall w1" and ?w2' = "record_event RefreshCall w1'"
  have w2: "alike R strict ?w2 ?w2'" by (rule alike_record_event [OF w1])
  show ?thesis
  proof (cases r1)
    case (Some thrown)
    with a1 a1' r1 w1 show ?thesis by (simp add: refetch_def)
  next
    case None
    show ?thesis
    proof (cases "getVeoAuthTokens env")
      case (Inl e)
      from alike_log_call [OF lock w2, of "refresh_failed_entry logContext (message e)"]
      show ?thesis
        using a1 a1' r1 None Inl same
        by (auto simp: refetch_def Let_def split: prod.splits option.splits)
    next
      case (Inr found)
      show ?thesis
      proof (cases found)
        case None
        with a1 a1' r1 \<open>r1 = None\<close> Inr same w2 show ?thesis
          by (simp add: refetch_def Let_def)
      next
        case (Some newTokens)
        let ?text = "JSON_stringify env newTokens"
        let ?w3 = "record_event (SetItem ?text) (?w2\<lparr>veoAuthTokens := Some ?text\<rparr>)"
        let ?w3' = "record_event (SetItem ?text) (?w2'\<lparr>veoAuthTokens := Some ?text\<rparr>)"
        have w3: "alike R strict ?w3 ?w3'"
          by (rule alike_record_event [OF alike_store [OF w2]])
        obtain r4 w4 where a4:
          "log_call env (refresh_ok_entry logContext (length newTokens)) ?w3 = (r4, w4)"
          by (cases "log_call env (refresh_ok_entry logContext (length newTokens)) ?w3")
        obtain r4' w4' where a4':
          "log_call env' (refresh_ok_entry logContext (length newTokens)) ?w3' = (r4', w4')"
          by (cases "log_call env' (refresh_ok_entry logContext (length newTokens)) ?w3'")
        from alike_log_call [OF lock w3, of "refresh_ok_entry logContext (length newTokens)"] a4 a4'
        have r4: "r4' = r4" and w4: "alike R strict w4 w4'" by simp_all
        have caught: "\<And>e. rel_prod (=) (alike R strict)
            (log_call env (refresh_failed_entry logContext (message e)) w4)
            (log_call env' (refresh_failed_entry logContext (message e)) w4')"
          by (rule alike_log_call [OF lock w4])
        show ?thesis
        proof (cases "newTokens = []")
          case True
          with a1 a1' r1 \<open>r1 = None\<close> Inr Some same w2 show ?thesis
            by (simp add: refetch_def Let_def)
        next
          case False
          show ?thesis
          proof (cases r4)
            case None
            with a1 a1' r1 \<open>r1 = None\<close> Inr Some same False a4 a4' r4 w4 show ?thesis
              by (simp add: refetch_def Let_def)
          next
            case (Some e)
            from caught [of e] show ?thesis
              using a1 a1' r1 \<open>r1 = None\<close> Inr \<open>found = Some newTokens\<close> same False a4 a4' r4 Some
              by (auto simp: refetch_def Let_def split: prod.splits option.splits)
          qed
        qed
      qed
    qed
  qed
qed

lemma alike_getTokens:
  assumes "lockstep R env env'" "alike R True w w'"
  shows "rel_prod (=) (alike R True) (getTokens env w) (getTokens env' w')"
proof -
  from assms have "JSON_parse env' = JSON_parse env" "veoAuthTokens w' = veoAuthTokens w"
    by (simp_all add: lockstep_def alike_def)
  then show ?thesis
    using alike_record_event [OF assms(2), of GetItem]
    by (simp add: getTokens_def Let_def split: option.splits cached.splits)
qed

lemma alike_after_resolve:
  assumes lock: "lockstep R env env'"
    and res: "rel_prod (=) (alike R strict)
       (resolve_tokens env logContext specificToken w)
       (resolve_tokens env' logContext specificToken w')"
  shows "rel_prod (=) (alike R strict)
       (fetchWithTokenRotation env endpoint requestBody logContext specificToken w)
       (fetchWithTokenRotation env' endpoint requestBody logContext specificToken w')"
proof -
  obtain r w1 where a: "resolve_tokens env logContext specificToken w = (r, w1)"
    by (cases "resolve_tokens env logContext specificToken w")
  obtain r' w1' where a': "resolve_tokens env' logContext specificToken w' = (r', w1')"
    by (cases "resolve_tokens env' logContext specificToken w'")
  from res a a' have r: "r' = r" and w1: "alike R strict w1 w1'" by simp_all
  show ?thesis
  proof (cases r)
    case (Inl thrown)
    with a a' r w1 show ?thesis by (simp add: fetchWithTokenRotation_def)
  next
    case (Inr tokens)
    from alike_rotate [OF lock w1, of endpoint requestBody logContext tokens 0 None]
    show ?thesis
      using a a' r w1 Inr by (simp add: fetchWithTokenRotation_def)
  qed
qed

lemma alike_resolve_tokens:
  assumes lock: "lockstep R env env'" and w: "alike R True w w'"
  shows "rel_prod (=) (alike R True)
       (resolve_tokens env logContext specificToken w)
       (resolve_tokens env' logContext specificToken w')"
proof -
  obtain ts w1 where a: "getTokens env w = (ts, w1)" by (cases "getTokens env w")
  obtain ts' w1' where a': "getTokens env' w' = (ts', w1')" by (cases "getTokens env' w'")
  from alike_getTokens [OF lock w] a a' have ts: "ts' = ts" and w1: "alike R True w1 w1'"
    by simp_all
  from alike_refetch [OF lock w1, of logContext ts] show ?thesis
    using a a' ts w1 w
    by (cases specificToken) (auto simp: resolve_tokens_def)
qed

lemma lockstep_silenced:
  "returns_normally (addLogEntry env) \<Longrightarrow> lockstep (\<lambda>s u. True) env (silenced env)"
  by (simp add: lockstep_def silenced_def returns_normally_def noop_sink_def)

lemma lockstep_refl: "lockstep (=) env env"
  by (simp add: lockstep_def)

lemma alike_forget: "alike (\<lambda>s u. True) True w (forget w)"
  by (simp add: alike_def forget_def)

lemma demo_parts:
  "JSON_parse demo_env = demo_parse" "addLogEntry demo_env = noop_sink"
  "fetch demo_env = demo_fetch"
  by (simp_all add: demo_env_def)

lemma audits_lookup_events: "audits (lookup_events env logContext) = lookup_entries env logContext"
  by (simp add: lookup_events_def lookup_entries_def split: sum.splits option.splits)

lemma audits_pass_events:
  "attempt_at env endpoint requestBody tokens j = Inl (errs j) \<Longrightarrow>
   audits (pass_events env endpoint requestBody logContext tokens j) =
     failed_pass_entries logContext tokens errs j"
  by (simp add: pass_events_def failed_pass_entries_def)

lemma audits_concat_pass:
  "\<forall>j\<in>set xs. attempt_at env endpoint requestBody tokens j = Inl (errs j) \<Longrightarrow>
   audits (concat (map (pass_events env endpoint requestBody logContext tokens) xs)) =
     concat (map (failed_pass_entries logContext tokens errs) xs)"
  by (induction xs) (simp_all add: audits_pass_events)

lemma length_failed_passes:
  "length (concat (map (failed_pass_entries logContext tokens errs) [0..<n])) =
     2 * n + min n (length tokens - 1)"
  by (induction n) (simp_all add: failed_pass_entries_def)

lemma errors_failed_passes:
  "length (filter (\<lambda>e. status e = Error)
     (concat (map (failed_pass_entries logContext tokens errs) xs))) = length xs"
  by (induction xs)
    (simp_all add: failed_pass_entries_def attempt_entry_def failed_entry_def retry_entry_def)

lemma events_log_call:
  "log_call env entry w = (r, w1) \<Longrightarrow> events w1 = events w @ [Audit entry]"
  by (auto simp: log_call_def record_event_def split: prod.splits)

lemma events_grow_rotate:
  "prefix (events w) (events (snd (rotate env endpoint requestBody logContext tokens i lastError w)))"
proof (induction "length tokens - i" arbitrary: i lastError w)
  case 0
  then have stop: "\<not> i < length tokens" by simp
  show ?case
  proof (cases lastError)
    case None
    with stop show ?thesis by (simp add: rotate.simps [of _ _ _ _ tokens i])
  next
    case (Some err)
    obtain r1 w1 where a1: "log_call env (exhausted_entry logContext (message err)) w = (r1, w1)"
      by (cases "log_call env (exhausted_entry logContext (message err)) w")
    from events_log_call [OF a1] show ?thesis
      using stop Some a1
      by (simp add: rotate.simps [of _ _ _ _ tokens i] split: option.splits)
  qed
next
  case (Suc n)
  then have run: "i < length tokens" and n: "n = length tokens - Suc i" by simp_all
  let ?t = "token (tokens ! i)"
  obtain r1 w1 where a1: "log_call env (attempt_entry logContext i ?t) w = (r1, w1)"
    by (cases "log_call env (attempt_entry logContext i ?t) w")
  note e1 = events_log_call [OF a1]
  let ?w2 = "record_event (Post (make_request endpoint requestBody ?t)) w1"
  have e2: "prefix (events w) (events ?w2)" by (simp add: e1)
  show ?case
  proof (cases r1)
    case (Some thrown)
    with a1 e1 run show ?thesis
      by (simp add: rotate.simps [of _ _ _ _ tokens i] Let_def)
  next
    case None
    show ?thesis
    proof (cases "attempt env endpoint requestBody ?t i")
      case (Inr d)
      with a1 None e2 run show ?thesis
        by (simp add: rotate.simps [of _ _ _ _ tokens i] Let_def)
    next
      case (Inl err)
      obtain r3 w3 where a3: "log_call env (failed_entry logContext i (message err)) ?w2 = (r3, w3)"
        by (cases "log_call env (failed_entry logContext i (message err)) ?w2")
      have e3: "prefix (events w) (events w3)"
        using events_log_call [OF a3] e1 by simp
      obtain r4 w4 where a4: "log_call env (retry_entry logContext) w3 = (r4, w4)"
        by (cases "log_call env (retry_entry logContext) w3")
      have e4: "prefix (events w) (events w4)"
        using events_log_call [OF a4] events_log_call [OF a3] e1 by simp
      have ih3: "prefix (events w)
          (events (snd (rotate env endpoint requestBody logContext tokens (Suc i) (Some err) w3)))"
        by (rule prefix_order.trans [OF e3 Suc.hyps(1) [OF n]])
      have ih4: "prefix (events w)
          (events (snd (rotate env endpoint requestBody logContext tokens (Suc i) (Some err) w4)))"
        by (rule prefix_order.trans [OF e4 Suc.hyps(1) [OF n]])
      show ?thesis
        using a1 None Inl a3 a4 e3 e4 ih3 ih4 run
        by (simp add: rotate.simps [of _ _ _ _ tokens i] Let_def split: option.splits)
    qed
  qed
qed

lemma audits_prefix: "prefix xs ys \<Longrightarrow> prefix (audits xs) (audits ys)"
  by (auto simp: prefix_def)

lemma first_call_of_pass:
  assumes run: "i < length tokens"
  shows "prefix (events w @ [Audit (attempt_entry logContext i (token (tokens ! i)))])
     (events (snd (rotate env endpoint requestBody logContext tokens i lastError w)))"
proof -
  let ?t = "token (tokens ! i)"
  obtain r1 w1 where a1: "log_call env (attempt_entry logContext i ?t) w = (r1, w1)"
    by (cases "log_call env (attempt_entry logContext i ?t) w")
  note e1 = events_log_call [OF a1]
  let ?w2 = "record_event (Post (make_request endpoint requestBody ?t)) w1"
  show ?thesis
  proof (cases r1)
    case (Some thrown)
    with a1 e1 run show ?thesis
      by (simp add: rotate.simps [of _ _ _ _ tokens i] Let_def)
  next
    case None
    show ?thesis
    proof (cases "attempt env endpoint requestBody ?t i")
      case (Inr d)
      with a1 None e1 run show ?thesis
        by (simp add: rotate.simps [of _ _ _ _ tokens i] Let_def)
    next
      case (Inl err)
      obtain r3 w3 where a3: "log_call env (failed_entry logContext i (message err)) ?w2 = (r3, w3)"
        by (cases "log_call env (failed_entry logContext i (message err)) ?w2")
      have e3: "prefix (events w @ [Audit (attempt_entry logContext i ?t)]) (events w3)"
        using events_log_call [OF a3] e1 by simp
      obtain r4 w4 where a4: "log_call env (retry_entry logContext) w3 = (r4, w4)"
        by (cases "log_call env (retry_entry logContext) w3")
      have e4: "prefix (events w @ [Audit (attempt_entry logContext i ?t)]) (events w4)"
        using events_log_call [OF a4] events_log_call [OF a3] e1 by simp
      have ih3: "prefix (events w @ [Audit (attempt_entry logContext i ?t)])
          (events (snd (rotate env endpoint requestBody logContext tokens (Suc i) (Some err) w3)))"
        by (rule prefix_order.trans [OF e3 events_grow_rotate])
      have ih4: "prefix (events w @ [Audit (attempt_entry logContext i ?t)])
          (events (snd (rotate env endpoint requestBody logContext tokens (Suc i) (Some err) w4)))"
        by (rule prefix_order.trans [OF e4 events_grow_rotate])
      show ?thesis
        using a1 None Inl a3 a4 e3 e4 ih3 ih4 run
        by (simp add: rotate.simps [of _ _ _ _ tokens i] Let_def split: option.splits)
    qed
  qed
qed








subsection \<open>Claims\<close>

text \<open>
  C1. With a sink that returns normally: when the tokens to try are not empty, candidate
  \<open>k\<close> is answered with an OK status and a body that parses, and every candidate before
  it fails, the call returns that body with candidate \<open>k\<close>'s token, and the requests
  issued are exactly those of the candidates 0 to \<open>k\<close>, in order: nothing is sent for a
  later candidate.
\<close>

theorem first_success_stops_rotation:
  assumes quiet: "returns_normally (addLogEntry env)"
    and resolved: "fst (resolve_tokens env logContext specificToken w) = Inr tokens"
    and k: "k < length tokens"
    and before: "\<forall>j<k. isl (attempt_at env endpoint requestBody tokens j)"
    and answer: "fetch env k (request_at endpoint requestBody tokens k) = Responded r"
    and status: "ok r"
    and parsed: "json_body r = Inr d"
  shows "fst (fetchWithTokenRotation env endpoint requestBody logContext specificToken w) =
           Inr \<lparr>data = d, successfulToken = token (tokens ! k)\<rparr> \<and>
         posts (events (snd (fetchWithTokenRotation env endpoint requestBody logContext specificToken w))) =
           posts (events w) @ map (request_at endpoint requestBody tokens) [0..<Suc k]"
proof -
  obtain w1 where res: "resolve_tokens env logContext specificToken w = (Inr tokens, w1)"
    using resolved by (cases "resolve_tokens env logContext specificToken w") simp
  have w1: "posts (events w1) = posts (events w)"
    using posts_resolve_tokens [of env logContext specificToken w] res by simp
  have success: "attempt_at env endpoint requestBody tokens k = Inr d"
    using answer status parsed by (simp add: attempt_at_def attempt_def request_at_def)
  have before': "\<forall>j. 0 \<le> j \<and> j < k \<longrightarrow> isl (attempt_at env endpoint requestBody tokens j)"
    using before by simp
  note run = rotate_first_success [OF quiet le0 k before' success, of logContext None w1]
  have dispatch: "fetchWithTokenRotation env endpoint requestBody logContext specificToken w =
      rotate env endpoint requestBody logContext tokens 0 None w1"
    using res k by (auto simp: fetchWithTokenRotation_def)
  show ?thesis
    unfolding dispatch using run w1
    by (simp add: posts_concat_pass del: upt_Suc)
qed

theorem first_success_stops_rotation_witness:
  "fst (fetchWithTokenRotation demo_env ''/api/veo/generate-t2v'' (JObj []) ''VEO T2V'' None
          (demo_world None)) =
     Inr \<lparr>data = JObj [(''ok'', JBool True)], successfulToken = ''C''\<rparr> \<and>
   posts (events (snd (fetchWithTokenRotation demo_env ''/api/veo/generate-t2v'' (JObj [])
          ''VEO T2V'' None (demo_world None)))) =
     [make_request ''/api/veo/generate-t2v'' (JObj []) ''B'',
      make_request ''/api/veo/generate-t2v'' (JObj []) ''C'']"
proof -
  let ?tokens = "[\<lparr>token = ''B'', createdAt = ''N/A''\<rparr>, \<lparr>token = ''C'', createdAt = ''N/A''\<rparr>]"
  have quiet: "returns_normally (addLogEntry demo_env)"
    by (simp add: demo_env_def returns_normally_def noop_sink_def)
  have resolved: "fst (resolve_tokens demo_env ''VEO T2V'' None (demo_world None)) = Inr ?tokens"
    by (simp add: resolve_tokens_def getTokens_def refetch_def log_call_def demo_env_def
        demo_world_def noop_sink_def record_event_def)
  have k: "(1::nat) < length ?tokens" by simp
  have before: "\<forall>j<1. isl (attempt_at demo_env ''/api/veo/generate-t2v'' (JObj []) ?tokens j)"
    by (simp add: attempt_at_def attempt_def demo_env_def demo_fetch_def make_request_def)
  have answer: "fetch demo_env 1 (request_at ''/api/veo/generate-t2v'' (JObj []) ?tokens 1) =
      Responded \<lparr>http_status = 200, json_body = Inr (JObj [(''ok'', JBool True)])\<rparr>"
    by (simp add: request_at_def demo_env_def demo_fetch_def make_request_def)
  have status: "ok \<lparr>http_status = 200, json_body = Inr (JObj [(''ok'', JBool True)])\<rparr>"
    by (simp add: ok_def)
  from first_success_stops_rotation [OF quiet resolved k before answer status]
  show ?thesis
    by (simp add: demo_world_def request_at_def)
qed

text \<open>
  C2. With a sink that returns normally: when the tokens to try are not empty and every
  attempt fails, the call fails with the error of the last attempt itself, as the try
  block threw it: same name, same message, nothing wrapped around it.
\<close>

theorem exhaustion_rethrows_last_error:
  assumes quiet: "returns_normally (addLogEntry env)"
    and resolved: "fst (resolve_tokens env logContext specificToken w) = Inr tokens"
    and nonempty: "tokens \<noteq> []"
    and allfail: "\<forall>j<length tokens. isl (attempt_at env endpoint requestBody tokens j)"
    and final: "attempt_at env endpoint requestBody tokens (length tokens - 1) = Inl final"
  shows "fst (fetchWithTokenRotation env endpoint requestBody logContext specificToken w) =
           Inl final"
proof -
  obtain w1 where res: "resolve_tokens env logContext specificToken w = (Inr tokens, w1)"
    using resolved by (cases "resolve_tokens env logContext specificToken w") simp
  from nonempty have pos: "0 < length tokens" by simp
  have every: "\<forall>j. 0 \<le> j \<and> j < length tokens \<longrightarrow>
      isl (attempt_at env endpoint requestBody tokens j)"
    using allfail by simp
  have dispatch: "fetchWithTokenRotation env endpoint requestBody logContext specificToken w =
      rotate env endpoint requestBody logContext tokens 0 None w1"
    using res nonempty by (simp add: fetchWithTokenRotation_def)
  from rotate_all_fail [OF quiet pos every final, of logContext None w1] show ?thesis
    unfolding dispatch by simp
qed

theorem exhaustion_rethrows_last_error_witness:
  "fst (fetchWithTokenRotation failing_env ''/api/veo/generate-t2v'' (JObj []) ''VEO T2V'' None
          (demo_world None)) = Inl (JsError ''Error'' ''quota'')"
proof -
  let ?tokens = "[\<lparr>token = ''B'', createdAt = ''N/A''\<rparr>, \<lparr>token = ''D'', createdAt = ''N/A''\<rparr>]"
  have quiet: "returns_normally (addLogEntry failing_env)"
    by (simp add: demo_defs returns_normally_def)
  have resolved: "fst (resolve_tokens failing_env ''VEO T2V'' None (demo_world None)) = Inr ?tokens"
    by (simp add: run_defs demo_defs)
  have nonempty: "?tokens \<noteq> []" by simp
  have allfail: "\<forall>j<length ?tokens.
      isl (attempt_at failing_env ''/api/veo/generate-t2v'' (JObj []) ?tokens j)"
    by (simp add: run_defs demo_defs less_Suc_eq)
  have final: "attempt_at failing_env ''/api/veo/generate-t2v'' (JObj []) ?tokens (length ?tokens - 1) =
      Inl (JsError ''Error'' ''quota'')"
    by (simp add: run_defs demo_defs failure_error_def throw_new_Error_def or_else_def)
  from exhaustion_rethrows_last_error [OF quiet resolved nonempty allfail final]
  show ?thesis .
qed

text \<open>
  C3. With a sink that returns normally and without a pin: when the stored text is
  missing, empty, malformed, not an array or an empty array, and the lookup throws or
  returns nothing, the call fails with the error whose message names the context label,
  and no request has been sent.
\<close>

theorem no_tokens_fails_before_any_request:
  assumes quiet: "returns_normally (addLogEntry env)"
    and unpinned: "\<not> given specificToken"
    and cache: "cache_unusable env w"
    and lookup: "lookup_yields_nothing (getVeoAuthTokens env)"
  shows "fst (fetchWithTokenRotation env endpoint requestBody logContext specificToken w) =
           Inl (JsError ''Error''
                  (''Auth Token is required for '' @ logContext @
                   ''. Please set it via the Key icon in the header.'')) \<and>
         posts (events (snd (fetchWithTokenRotation env endpoint requestBody logContext
                  specificToken w))) = posts (events w)"
proof -
  have res: "resolve_tokens env logContext specificToken w =
      refetch env logContext [] (record_event GetItem w)"
    by (simp add: resolve_unpinned [OF unpinned] getTokens_unusable [OF cache])
  obtain w1 where w1: "refetch env logContext [] (record_event GetItem w) = (Inr [], w1)"
    using refetch_nothing [OF quiet lookup, of logContext "record_event GetItem w"]
    by (cases "refetch env logContext [] (record_event GetItem w)") simp
  have "posts (events w1) = posts (events w)"
    using posts_refetch [of env logContext "[]" "record_event GetItem w"] w1 by simp
  then show ?thesis
    by (simp add: fetchWithTokenRotation_def res w1 no_token_error_def)
qed

theorem no_tokens_fails_before_any_request_witness:
  "fst (fetchWithTokenRotation empty_env ''/api/veo/generate-t2v'' (JObj []) ''VEO T2V'' None
          (demo_world (Some ''{not json''))) =
     Inl (JsError ''Error''
            ''Auth Token is required for VEO T2V. Please set it via the Key icon in the header.'') \<and>
   posts (events (snd (fetchWithTokenRotation empty_env ''/api/veo/generate-t2v'' (JObj [])
          ''VEO T2V'' None (demo_world (Some ''{not json''))))) = []"
proof -
  have quiet: "returns_normally (addLogEntry empty_env)"
    by (simp add: demo_defs returns_normally_def)
  have unpinned: "\<not> given None" by simp
  have cache: "cache_unusable empty_env (demo_world (Some ''{not json''))"
    by (simp add: cache_unusable_def demo_defs)
  have lookup: "lookup_yields_nothing (getVeoAuthTokens empty_env)"
    by (simp add: demo_defs)
  from no_tokens_fails_before_any_request [OF quiet unpinned cache lookup]
  show ?thesis by (simp add: demo_world_def)
qed

text \<open>
  C4, as amended. With a pin that is not the empty string, the tokens to try are the
  pinned token alone, with the creation date N/A, and the world is left as it was: no
  read or write of the storage and no lookup. With a sink that returns normally the call
  then makes one attempt and sends one request, whatever the storage holds; a success
  returns the body with the pinned token, a failure is logged, summarised and thrown
  again.
\<close>

theorem pinned_token_single_attempt:
  assumes quiet: "returns_normally (addLogEntry env)"
    and pin: "t \<noteq> []"
  shows "resolve_tokens env logContext (Some t) w =
           (Inr [\<lparr>token = t, createdAt = ''N/A''\<rparr>], w) \<and>
         fst (fetchWithTokenRotation env endpoint requestBody logContext (Some t) w) =
           (case attempt env endpoint requestBody t 0 of
              Inr d \<Rightarrow> Inr \<lparr>data = d, successfulToken = t\<rparr>
            | Inl err \<Rightarrow> Inl err) \<and>
         events (snd (fetchWithTokenRotation env endpoint requestBody logContext (Some t) w)) =
           events w @
           [Audit (attempt_entry logContext 0 t), Post (make_request endpoint requestBody t)] @
           (case attempt env endpoint requestBody t 0 of
              Inr d \<Rightarrow> []
            | Inl err \<Rightarrow>
                [Audit (failed_entry logContext 0 (message err)),
                 Audit (exhausted_entry logContext (message err))]) \<and>
         veoAuthTokens (snd (fetchWithTokenRotation env endpoint requestBody logContext (Some t) w)) =
           veoAuthTokens w"
proof -
  let ?tokens = "[\<lparr>token = t, createdAt = ''N/A''\<rparr>]"
  have dispatch: "fetchWithTokenRotation env endpoint requestBody logContext (Some t) w =
      rotate env endpoint requestBody logContext ?tokens 0 None w"
    by (simp add: fetchWithTokenRotation_def resolve_pinned [OF pin])
  have at: "attempt_at env endpoint requestBody ?tokens 0 = attempt env endpoint requestBody t 0"
    by (simp add: attempt_at_def)
  show ?thesis
  proof (cases "attempt env endpoint requestBody t 0")
    case (Inr d)
    with at have "attempt_at env endpoint requestBody ?tokens 0 = Inr d" by simp
    from rotate_success [OF quiet _ this, of logContext None w] Inr show ?thesis
      by (simp add: dispatch resolve_pinned [OF pin] request_at_def)
  next
    case (Inl err)
    with at have fails: "attempt_at env endpoint requestBody ?tokens 0 = Inl err" by simp
    have step: "rotate env endpoint requestBody logContext ?tokens 0 None w =
        rotate env endpoint requestBody logContext ?tokens (Suc 0) (Some err)
          (after_failure env endpoint requestBody logContext ?tokens 0 err w)"
      by (rule rotate_failure [OF quiet _ fails]) simp
    have stop: "\<not> Suc 0 < length ?tokens" by simp
    show ?thesis
      unfolding dispatch step rotate_exhausted [OF quiet stop]
      using Inl
      by (simp add: resolve_pinned [OF pin] events_after_failure [OF fails] pass_events_def
          fails request_at_def)
  qed
qed

theorem pinned_token_single_attempt_witness:
  "events (snd (fetchWithTokenRotation demo_env ''/api/veo/generate-t2v'' (JObj []) ''VEO T2V''
          (Some ''C'') (demo_world (Some ''A'')))) =
     [Audit (attempt_entry ''VEO T2V'' 0 ''C''),
      Post (make_request ''/api/veo/generate-t2v'' (JObj []) ''C'')] \<and>
   events (snd (fetchWithTokenRotation demo_env ''/api/veo/generate-t2v'' (JObj []) ''VEO T2V''
          (Some ''Z'') (demo_world (Some ''A'')))) =
     [Audit (attempt_entry ''VEO T2V'' 0 ''Z''),
      Post (make_request ''/api/veo/generate-t2v'' (JObj []) ''Z''),
      Audit (failed_entry ''VEO T2V'' 0 ''quota''),
      Audit (exhausted_entry ''VEO T2V'' ''quota'')]"
proof -
  have quiet: "returns_normally (addLogEntry demo_env)"
    by (simp add: demo_defs returns_normally_def)
  have good: "attempt demo_env ''/api/veo/generate-t2v'' (JObj []) ''C'' 0 =
      Inr (JObj [(''ok'', JBool True)])"
    by (simp add: run_defs demo_defs)
  have bad: "attempt demo_env ''/api/veo/generate-t2v'' (JObj []) ''Z'' 0 =
      Inl (JsError ''Error'' ''quota'')"
    by (simp add: run_defs demo_defs failure_error_def throw_new_Error_def or_else_def)
  have c: "''C'' \<noteq> []" and z: "''Z'' \<noteq> []" by simp_all
  from pinned_token_single_attempt [OF quiet c, of "''VEO T2V''" "demo_world (Some ''A'')"
      "''/api/veo/generate-t2v''" "JObj []"]
    pinned_token_single_attempt [OF quiet z, of "''VEO T2V''" "demo_world (Some ''A'')"
      "''/api/veo/generate-t2v''" "JObj []"]
  show ?thesis
    by (simp add: good bad demo_world_def)
qed

text \<open>A pin that is the empty string is not used: the storage is read, and the request
  carries the stored token A.\<close>

theorem empty_pin_reads_the_cache:
  "resolve_tokens demo_env ''VEO T2V'' (Some []) (demo_world (Some ''A'')) =
     (Inr [\<lparr>token = ''A'', createdAt = ''N/A''\<rparr>],
      \<lparr>veoAuthTokens = Some ''A'', sinkState = (), events = [GetItem]\<rparr>) \<and>
   posts (events (snd (fetchWithTokenRotation demo_env ''/api/veo/generate-t2v'' (JObj [])
      ''VEO T2V'' (Some []) (demo_world (Some ''A''))))) =
     [make_request ''/api/veo/generate-t2v'' (JObj []) ''A'']"
proof -
  have first: "attempt demo_env ''/api/veo/generate-t2v'' (JObj []) ''A'' 0 =
      Inl (JsError ''Error'' ''quota'')"
    by (simp add: attempt_def make_request_def ok_def demo_parts demo_fetch_def
        failure_error_def throw_new_Error_def or_else_def)
  show ?thesis
    by (simp add: fetchWithTokenRotation_def resolve_tokens_def getTokens_def rotate.simps first
        log_call_def record_event_def demo_parts demo_parse_def demo_world_def noop_sink_def
        Let_def)
qed

text \<open>
  C5, as amended. For an attempt answered with a status outside 200-299 and a body that
  parses to a value other than null, the value given to \<^verbatim>\<open>new Error\<close> is the nested
  error.message of the body when that value is truthy (a non-empty string, for one),
  else the top-level message when that is truthy, else API call failed (status); a field
  that is present but falsy, such as the empty string, is passed over. The error recorded
  is the Error whose message is that value as a string, or, when the value has no string
  form (an object with a property named toString), the TypeError of the conversion.
\<close>

theorem failure_message_from_body:
  assumes answer: "fetch env i (make_request endpoint requestBody t) = Responded r"
    and status: "\<not> ok r"
    and parsed: "json_body r = Inr d"
    and body: "d \<noteq> JNull"
  shows "attempt env endpoint requestBody t i =
     Inl (case (if truthy (opt_chain (get_prop d ''error'') ''message'')
                then opt_chain (get_prop d ''error'') ''message''
                else if truthy (get_prop d ''message'') then get_prop d ''message''
                else None) of
            None \<Rightarrow> JsError ''Error'' (''API call failed ('' @ show_nat (http_status r) @ '')'')
          | Some v \<Rightarrow>
              (case js_to_string v of
                 Some m \<Rightarrow> JsError ''Error'' m
               | None \<Rightarrow> JsError ''TypeError'' ''Cannot convert object to primitive value''))"
proof -
  have "attempt env endpoint requestBody t i = Inl (failure_error d (http_status r))"
    using answer status parsed by (simp add: attempt_def)
  moreover have "failure_error d (http_status r) =
     (case (if truthy (opt_chain (get_prop d ''error'') ''message'')
            then opt_chain (get_prop d ''error'') ''message''
            else if truthy (get_prop d ''message'') then get_prop d ''message''
            else None) of
        None \<Rightarrow> JsError ''Error'' (''API call failed ('' @ show_nat (http_status r) @ '')'')
      | Some v \<Rightarrow>
          (case js_to_string v of
             Some m \<Rightarrow> JsError ''Error'' m
           | None \<Rightarrow> JsError ''TypeError'' ''Cannot convert object to primitive value''))"
    using body
    by (cases "opt_chain (get_prop d ''error'') ''message''"; cases "get_prop d ''message''")
      (simp_all add: failure_error_def throw_new_Error_def or_else_def generic_message_def throw_new_Error_def)
  ultimately show ?thesis by simp
qed

theorem failure_message_from_body_witness:
  "attempt demo_env ''/api/veo/generate-t2v'' (JObj []) ''A'' 0 = Inl (JsError ''Error'' ''quota'') \<and>
   fst (fetchWithTokenRotation demo_env ''/api/veo/generate-t2v'' (JObj []) ''VEO T2V'' None
          (demo_world (Some ''A''))) = Inl (JsError ''Error'' ''quota'') \<and>
   attempt unprintable_env ''/api/veo/generate-t2v'' (JObj []) ''A'' 0 =
     Inl (JsError ''TypeError'' ''Cannot convert object to primitive value'')"
proof -
  let ?r = "\<lparr>http_status = 500,
      json_body = Inr (JObj [(''error'', JObj [(''message'', JStr ''quota'')])])\<rparr>"
  have answer: "fetch demo_env 0 (make_request ''/api/veo/generate-t2v'' (JObj []) ''A'') =
      Responded ?r"
    by (simp add: demo_defs make_request_def)
  have status: "\<not> ok ?r" by (simp add: ok_def)
  have parsed: "json_body ?r = Inr (JObj [(''error'', JObj [(''message'', JStr ''quota'')])])"
    by simp
  have body: "JObj [(''error'', JObj [(''message'', JStr ''quota'')])] \<noteq> JNull" by simp
  note one = failure_message_from_body [OF answer status parsed body]
  have first: "attempt demo_env ''/api/veo/generate-t2v'' (JObj []) ''A'' 0 =
      Inl (JsError ''Error'' ''quota'')"
    using one by simp
  have whole: "fst (fetchWithTokenRotation demo_env ''/api/veo/generate-t2v'' (JObj [])
      ''VEO T2V'' None (demo_world (Some ''A''))) = Inl (JsError ''Error'' ''quota'')"
    by (simp add: fetchWithTokenRotation_def rotate.simps first resolve_tokens_def getTokens_def
        log_call_def record_event_def demo_parts demo_parse_def demo_world_def noop_sink_def
        Let_def)
  let ?u = "\<lparr>http_status = 500, json_body = Inr unprintable_body\<rparr>"
  have answer': "fetch unprintable_env 0 (make_request ''/api/veo/generate-t2v'' (JObj []) ''A'') =
      Responded ?u"
    by (simp add: unprintable_env_def)
  have status': "\<not> ok ?u" by (simp add: ok_def)
  have parsed': "json_body ?u = Inr unprintable_body" by simp
  have body': "unprintable_body \<noteq> JNull" by (simp add: unprintable_body_def)
  have second: "attempt unprintable_env ''/api/veo/generate-t2v'' (JObj []) ''A'' 0 =
      Inl (JsError ''TypeError'' ''Cannot convert object to primitive value'')"
    using failure_message_from_body [OF answer' status' parsed' body']
    by (simp add: unprintable_body_def)
  from first whole second show ?thesis by simp
qed

text \<open>With presence in place of truthiness the property fails: a nested message that is
  present but empty is not the message recorded; the generic one is.\<close>

theorem empty_nested_message_is_skipped:
  "attempt blank_env ''/api/veo/generate-t2v'' (JObj []) ''A'' 0 =
     Inl (JsError ''Error'' ''API call failed (500)'') \<and>
   claimed_message blank_body 500 = JStr [] \<and>
   JStr ''API call failed (500)'' \<noteq> claimed_message blank_body 500"
  by (simp add: attempt_def blank_env_def blank_body_def demo_defs make_request_def ok_def
      failure_error_def throw_new_Error_def or_else_def generic_message_def show_nat.simps claimed_message_def)

text \<open>
  C6, as amended. With a sink that returns normally and \<open>n \<ge> 1\<close> tokens that all fail,
  the loop and what follows it write, in order, for each candidate its attempt entry and
  its failure entry, then a retry entry if a candidate remains, and at last the summary:
  \<open>3 * n\<close> entries, \<open>n + 1\<close> of them with status Error (the failures and the summary).
  A lookup writes its start entry, then one entry for a non-empty result or for a thrown
  error, and none for an empty result.
\<close>

theorem audit_trail_of_exhaustion:
  assumes quiet: "returns_normally (addLogEntry env)"
    and nonempty: "tokens \<noteq> []"
    and allfail: "\<forall>j<length tokens. attempt_at env endpoint requestBody tokens j = Inl (errs j)"
  shows "audits (events (snd (rotate env endpoint requestBody logContext tokens 0 None w))) =
           audits (events w) @
           concat (map (failed_pass_entries logContext tokens errs) [0..<length tokens]) @
           [exhausted_entry logContext (message (errs (length tokens - 1)))] \<and>
         length (concat (map (failed_pass_entries logContext tokens errs) [0..<length tokens]) @
           [exhausted_entry logContext (message (errs (length tokens - 1)))]) =
           3 * length tokens \<and>
         length (filter (\<lambda>e. status e = Error)
           (concat (map (failed_pass_entries logContext tokens errs) [0..<length tokens]) @
            [exhausted_entry logContext (message (errs (length tokens - 1)))])) =
           length tokens + 1 \<and>
         audits (events (snd (refetch env logContext [] w))) =
           audits (events w) @ lookup_entries env logContext"
proof -
  from nonempty have pos: "0 < length tokens" by simp
  have every: "\<forall>j. 0 \<le> j \<and> j < length tokens \<longrightarrow>
      isl (attempt_at env endpoint requestBody tokens j)"
    using allfail by simp
  have final: "attempt_at env endpoint requestBody tokens (length tokens - 1) =
      Inl (errs (length tokens - 1))"
    using allfail pos by simp
  have passes: "\<forall>j\<in>set [0..<length tokens].
      attempt_at env endpoint requestBody tokens j = Inl (errs j)"
    using allfail by simp
  have trail: "audits (events (snd (rotate env endpoint requestBody logContext tokens 0 None w))) =
      audits (events w) @
      concat (map (failed_pass_entries logContext tokens errs) [0..<length tokens]) @
      [exhausted_entry logContext (message (errs (length tokens - 1)))]"
    using rotate_all_fail [OF quiet pos every final, of logContext None w]
    by (simp add: audits_concat_pass [OF passes])
  have total: "length (concat (map (failed_pass_entries logContext tokens errs) [0..<length tokens]) @
      [exhausted_entry logContext (message (errs (length tokens - 1)))]) = 3 * length tokens"
    using pos by (simp add: length_failed_passes del: length_concat)
  have errors: "length (filter (\<lambda>e. status e = Error)
      (concat (map (failed_pass_entries logContext tokens errs) [0..<length tokens]) @
       [exhausted_entry logContext (message (errs (length tokens - 1)))])) = length tokens + 1"
    by (simp add: errors_failed_passes exhausted_entry_def)
  have lookup: "audits (events (snd (refetch env logContext [] w))) =
      audits (events w) @ lookup_entries env logContext"
    by (simp add: events_refetch_quiet [OF quiet] audits_lookup_events)
  from trail total errors lookup show ?thesis by blast
qed

theorem audit_trail_of_exhaustion_witness:
  "audits (events (snd (rotate demo_env ''/api/veo/generate-t2v'' (JObj []) ''VEO T2V''
      [\<lparr>token = ''B'', createdAt = ''N/A''\<rparr>, \<lparr>token = ''D'', createdAt = ''N/A''\<rparr>] 0 None
      (demo_world None)))) =
     [attempt_entry ''VEO T2V'' 0 ''B'', failed_entry ''VEO T2V'' 0 ''Failed to fetch'',
      retry_entry ''VEO T2V'',
      attempt_entry ''VEO T2V'' 1 ''D'', failed_entry ''VEO T2V'' 1 ''quota'',
      exhausted_entry ''VEO T2V'' ''quota'']"
proof -
  let ?tokens = "[\<lparr>token = ''B'', createdAt = ''N/A''\<rparr>, \<lparr>token = ''D'', createdAt = ''N/A''\<rparr>]"
  have quiet: "returns_normally (addLogEntry demo_env)"
    by (simp add: demo_parts returns_normally_def noop_sink_def)
  have nonempty: "?tokens \<noteq> []" by simp
  have allfail: "\<forall>j<length ?tokens.
      attempt_at demo_env ''/api/veo/generate-t2v'' (JObj []) ?tokens j = Inl (two_errors j)"
    by (simp add: attempt_at_def attempt_def make_request_def ok_def demo_parts demo_fetch_def
        failure_error_def throw_new_Error_def or_else_def two_errors_def less_Suc_eq)
  from audit_trail_of_exhaustion [OF quiet nonempty allfail, of "''VEO T2V''" "demo_world None"]
  show ?thesis
    by (simp add: failed_pass_entries_def two_errors_def demo_world_def)
qed

text \<open>One entry for each attempt is too few: a single failing token already gives three
  entries, the attempt entry besides the failure and the summary.\<close>

theorem attempt_entry_is_not_counted:
  "audits (events (snd (rotate demo_env ''/api/veo/generate-t2v'' (JObj []) ''VEO T2V''
      [\<lparr>token = ''A'', createdAt = ''N/A''\<rparr>] 0 None (demo_world None)))) =
     [attempt_entry ''VEO T2V'' 0 ''A'', failed_entry ''VEO T2V'' 0 ''quota'',
      exhausted_entry ''VEO T2V'' ''quota''] \<and>
   length (audits (events (snd (rotate demo_env ''/api/veo/generate-t2v'' (JObj []) ''VEO T2V''
      [\<lparr>token = ''A'', createdAt = ''N/A''\<rparr>] 0 None (demo_world None))))) \<noteq> 1 + 1"
proof -
  have first: "attempt demo_env ''/api/veo/generate-t2v'' (JObj []) ''A'' 0 =
      Inl (JsError ''Error'' ''quota'')"
    by (simp add: attempt_def make_request_def ok_def demo_parts demo_fetch_def
        failure_error_def throw_new_Error_def or_else_def)
  show ?thesis
    by (simp add: rotate.simps first log_call_def record_event_def demo_parts demo_world_def
        noop_sink_def Let_def)
qed

text \<open>
  C7. Without a pin, a stored text that is malformed, empty, not an array or an empty
  array is treated as a missing one: the call has the same result and makes the same
  calls as with nothing stored, so no parse error reaches the caller; and with a sink
  that returns normally the tokens are looked up once, right after the read.
\<close>

theorem unusable_cache_is_missing_cache:
  assumes cache: "cache_unusable env w"
    and unpinned: "\<not> given specificToken"
  shows "fst (fetchWithTokenRotation env endpoint requestBody logContext specificToken w) =
         fst (fetchWithTokenRotation env endpoint requestBody logContext specificToken
                (w\<lparr>veoAuthTokens := None\<rparr>)) \<and>
         events (snd (fetchWithTokenRotation env endpoint requestBody logContext specificToken w)) =
         events (snd (fetchWithTokenRotation env endpoint requestBody logContext specificToken
                (w\<lparr>veoAuthTokens := None\<rparr>))) \<and>
         (returns_normally (addLogEntry env) \<longrightarrow>
          events (snd (resolve_tokens env logContext specificToken w)) =
            events w @ GetItem # lookup_events env logContext)"
proof -
  let ?w' = "w\<lparr>veoAuthTokens := None\<rparr>"
  have cache': "cache_unusable env ?w'" by (simp add: cache_unusable_def)
  have res: "resolve_tokens env logContext specificToken w =
      refetch env logContext [] (record_event GetItem w)"
    by (simp add: resolve_unpinned [OF unpinned] getTokens_unusable [OF cache])
  have res': "resolve_tokens env logContext specificToken ?w' =
      refetch env logContext [] (record_event GetItem ?w')"
    by (simp add: resolve_unpinned [OF unpinned] getTokens_unusable [OF cache'])
  have start: "alike (=) False (record_event GetItem w) (record_event GetItem ?w')"
    by (simp add: alike_def record_event_def)
  have "rel_prod (=) (alike (=) False)
      (resolve_tokens env logContext specificToken w)
      (resolve_tokens env logContext specificToken ?w')"
    unfolding res res' by (rule alike_refetch [OF lockstep_refl start])
  from alike_after_resolve [OF lockstep_refl this, of endpoint requestBody]
  have run: "rel_prod (=) (alike (=) False)
      (fetchWithTokenRotation env endpoint requestBody logContext specificToken w)
      (fetchWithTokenRotation env endpoint requestBody logContext specificToken ?w')" .
  have lookup: "returns_normally (addLogEntry env) \<Longrightarrow>
      events (snd (resolve_tokens env logContext specificToken w)) =
        events w @ GetItem # lookup_events env logContext"
    unfolding res by (simp add: events_refetch_quiet)
  from run lookup show ?thesis
    by (auto simp: rel_prod_sel alike_def)
qed

theorem unusable_cache_is_missing_cache_witness:
  "fst (fetchWithTokenRotation demo_env ''/api/veo/generate-t2v'' (JObj []) ''VEO T2V'' None
          (demo_world (Some ''{not json''))) =
   fst (fetchWithTokenRotation demo_env ''/api/veo/generate-t2v'' (JObj []) ''VEO T2V'' None
          (demo_world None)) \<and>
   events (snd (resolve_tokens demo_env ''VEO T2V'' None (demo_world (Some ''{not json'')))) =
     GetItem # lookup_events demo_env ''VEO T2V''"
proof -
  have cache: "cache_unusable demo_env (demo_world (Some ''{not json''))"
    by (simp add: cache_unusable_def demo_defs)
  have unpinned: "\<not> given None" by simp
  have quiet: "returns_normally (addLogEntry demo_env)"
    by (simp add: demo_defs returns_normally_def)
  have missing: "(demo_world (Some ''{not json''))\<lparr>veoAuthTokens := None\<rparr> = demo_world None"
    by (simp add: demo_world_def)
  have none: "events (demo_world (Some ''{not json'')) = []"
    by (simp add: demo_world_def)
  from unusable_cache_is_missing_cache [OF cache unpinned, of "''/api/veo/generate-t2v''"
      "JObj []" "''VEO T2V''"] quiet
  show ?thesis
    unfolding missing none by simp
qed

text \<open>
  C8, as amended. For every candidate tried whose token is longer than six characters,
  with any sink, the first entry a pass of the loop writes is made of the context label,
  the attempt number and the last six characters of the token: nothing else of the token
  is in it.
\<close>

theorem attempt_entry_shows_last_six:
  assumes run: "i < length tokens"
    and long: "6 < length (token (tokens ! i))"
  shows "prefix
           (audits (events w) @
            [\<lparr>model = logContext,
              prompt = ''Attempting '' @ logContext @ '' with token #'' @ show_nat (i + 1),
              output_text = ''Using token ending in ...'' @
                drop (length (token (tokens ! i)) - 6) (token (tokens ! i)),
              tokenCount = 0, status = Success, error = None\<rparr>])
           (audits (events (snd (rotate env endpoint requestBody logContext tokens i lastError w)))) \<and>
         length (drop (length (token (tokens ! i)) - 6) (token (tokens ! i))) = 6"
proof -
  from audits_prefix [OF first_call_of_pass [OF run, of w logContext env endpoint requestBody
      lastError]]
  show ?thesis
    using long by (simp add: attempt_entry_def slice_last6_def)
qed

theorem attempt_entry_shows_last_six_witness:
  "prefix
     [\<lparr>model = ''VEO T2V'', prompt = ''Attempting VEO T2V with token #1'',
       output_text = ''Using token ending in ...9f3kQz'',
       tokenCount = 0, status = Success, error = None\<rparr>]
     (audits (events (snd (rotate demo_env ''/api/veo/generate-t2v'' (JObj []) ''VEO T2V''
        [\<lparr>token = long_token, createdAt = ''N/A''\<rparr>] 0 None (demo_world None)))))"
proof -
  have run: "0 < length [\<lparr>token = long_token, createdAt = ''N/A''\<rparr>]" by simp
  have none: "audits (events (demo_world None)) = []" by (simp add: demo_world_def)
  have long: "6 < length (token ([\<lparr>token = long_token, createdAt = ''N/A''\<rparr>] ! 0))"
    by (simp add: long_token_def)
  have six: "drop (length long_token - 6) long_token = ''9f3kQz''"
    by (simp add: long_token_def)
  from attempt_entry_shows_last_six [OF run long, of "demo_world None" "''VEO T2V''" demo_env
      "''/api/veo/generate-t2v''" "JObj []" None]
  show ?thesis
    by (simp add: none six show_nat.simps)
qed

text \<open>A token of six characters or fewer is in the entry as a whole: here the three
  characters of abc.\<close>

theorem short_token_is_logged_whole:
  "output_text (hd (audits (events (snd (fetchWithTokenRotation demo_env ''/api/veo/generate-t2v''
      (JObj []) ''VEO T2V'' (Some ''abc'') (demo_world None)))))) =
     ''Using token ending in ...abc'' \<and>
   sublist ''abc'' ''Using token ending in ...abc''"
proof -
  have first: "attempt demo_env ''/api/veo/generate-t2v'' (JObj []) ''abc'' 0 =
      Inl (JsError ''Error'' ''quota'')"
    by (simp add: attempt_def make_request_def ok_def demo_parts demo_fetch_def
        failure_error_def throw_new_Error_def or_else_def)
  have entry: "output_text (hd (audits (events (snd (fetchWithTokenRotation demo_env
      ''/api/veo/generate-t2v'' (JObj []) ''VEO T2V'' (Some ''abc'') (demo_world None)))))) =
      ''Using token ending in ...abc''"
    by (simp add: fetchWithTokenRotation_def resolve_tokens_def rotate.simps first log_call_def
        record_event_def demo_parts demo_world_def noop_sink_def Let_def attempt_entry_def
        slice_last6_def)
  have inside: "sublist ''abc'' ''Using token ending in ...abc''"
    by (simp add: sublist_code)
  from entry inside show ?thesis by simp
qed

text \<open>
  C9, as amended. For every sink that returns normally, whatever its state and whatever
  it does with the entries, the call has the result, the calls and the stored text it has
  with the sink that does nothing. The calls of the sink are not guarded: an error
  thrown by the sink itself ends the call, as the example after the theorem shows.
\<close>

theorem quiet_sink_keeps_outcome:
  assumes quiet: "returns_normally (addLogEntry env)"
  shows "fst (fetchWithTokenRotation env endpoint requestBody logContext specificToken w) =
         fst (fetchWithTokenRotation (silenced env) endpoint requestBody logContext specificToken
                (forget w)) \<and>
         events (snd (fetchWithTokenRotation env endpoint requestBody logContext specificToken w)) =
         events (snd (fetchWithTokenRotation (silenced env) endpoint requestBody logContext
                specificToken (forget w))) \<and>
         veoAuthTokens (snd (fetchWithTokenRotation env endpoint requestBody logContext
                specificToken w)) =
         veoAuthTokens (snd (fetchWithTokenRotation (silenced env) endpoint requestBody logContext
                specificToken (forget w)))"
proof -
  note lock = lockstep_silenced [OF quiet]
  from alike_after_resolve [OF lock alike_resolve_tokens [OF lock alike_forget]]
  have "rel_prod (=) (alike (\<lambda>s u. True) True)
      (fetchWithTokenRotation env endpoint requestBody logContext specificToken w)
      (fetchWithTokenRotation (silenced env) endpoint requestBody logContext specificToken
         (forget w))" .
  then show ?thesis
    by (simp add: rel_prod_sel alike_def)
qed

theorem quiet_sink_keeps_outcome_witness:
  "fst (fetchWithTokenRotation recording_env ''/api/veo/generate-t2v'' (JObj []) ''VEO T2V''
          (Some ''C'') \<lparr>veoAuthTokens = None, sinkState = [], events = []\<rparr>) =
   fst (fetchWithTokenRotation demo_env ''/api/veo/generate-t2v'' (JObj []) ''VEO T2V''
          (Some ''C'') (demo_world None))"
proof -
  have quiet: "returns_normally (addLogEntry recording_env)"
    by (simp add: recording_env_def recording_sink_def returns_normally_def)
  have env: "silenced recording_env = demo_env"
    by (simp add: silenced_def recording_env_def demo_env_def)
  have world: "forget \<lparr>veoAuthTokens = None, sinkState = [], events = []\<rparr> = demo_world None"
    by (simp add: forget_def demo_world_def)
  from quiet_sink_keeps_outcome [OF quiet, of "''/api/veo/generate-t2v''" "JObj []" "''VEO T2V''"
      "Some ''C''" "\<lparr>veoAuthTokens = None, sinkState = [], events = []\<rparr>"]
  show ?thesis
    unfolding env world by simp
qed

text \<open>A sink that throws does change the outcome: with a pinned token that the server
  accepts, the call fails with the error of the sink, and succeeds with the sink that
  does nothing.\<close>

theorem throwing_sink_changes_outcome:
  "fst (fetchWithTokenRotation broken_sink_env ''/api/veo/generate-t2v'' (JObj []) ''VEO T2V''
          (Some ''C'') (demo_world None)) = Inl (JsError ''Error'' ''sink down'') \<and>
   fst (fetchWithTokenRotation demo_env ''/api/veo/generate-t2v'' (JObj []) ''VEO T2V''
          (Some ''C'') (demo_world None)) =
     Inr \<lparr>data = JObj [(''ok'', JBool True)], successfulToken = ''C''\<rparr>"
  by (simp add: fetchWithTokenRotation_def rotate.simps run_defs demo_defs broken_sink_env_def
      throwing_sink_def Let_def)



end
